theory Spec2Isabelle
  imports Main "HOL-Library.AList" "HOL-Library.Sublist"
begin

section \<open>SONiC state management: a shallow embedding of \<open>lib/sonic_state.py\<close>\<close>

text \<open>
  The module copies a fixed registry of state components between two adapters: a
  filesystem root and an in-memory archive that is persisted as a \<open>tar.gz\<close> file.
  The embedding follows the module top to bottom: byte strings and text, the storage the
  adapters work on, the two adapters, the registry, the special handlers and the four
  operations of \<open>StateManager\<close>.  Exceptions are values of type \<open>error\<close>; a function
  that can raise returns a sum whose left injection is the exception.

  The Python library below the module is modelled as follows.
  \<^item> A byte string is a list of 8-bit characters.  A byte string that is a tar archive is
    represented by the members it unpacks to (\<open>Tar\<close>); every other byte string by its
    bytes (\<open>Raw\<close>).  So \<open>tarfile.open\<close> succeeds exactly on \<open>Tar\<close> payloads.
  \<^item> A Python \<open>str\<close> is represented by its UTF-8 encoding, so \<open>bytes.decode()\<close> is a
    validity check and \<open>str.encode()\<close> is the identity; UTF-8 is self-synchronising, so
    splitting the encoding at the encoded line boundaries is \<open>str.splitlines()\<close>.
  \<^item> The tree under a filesystem root is an association list from relative paths (lists
    of path components) to entries; the root directory itself is the empty path and always
    exists.  Two roots, and the archive file, are separate storage.  Entries carry no
    owner and no read permission: the only read that fails is \<open>read_bytes\<close> on a
    directory.
  The checks that the constructor of \<open>StateManager\<close> makes once (root privilege unless
  dry-run, the tools \<open>tar\<close>, \<open>date\<close> and \<open>hostname\<close>) come before every operation and
  are taken to have passed.
\<close>

subsection \<open>Exceptions\<close>

datatype error =
    AttributeError        \<comment> \<open>an attribute that a module does not have\<close>
  | UnicodeDecodeError    \<comment> \<open>\<open>bytes.decode()\<close> on bytes that are not UTF-8\<close>
  | ReadError             \<comment> \<open>\<open>tarfile.open\<close> on bytes that are not a tar archive\<close>
  | OSError               \<comment> \<open>a filesystem call refused: a file where a directory is needed, or the reverse\<close>

subsection \<open>Bytes and text\<close>

type_synonym bytes = "char list"

definition byte_in :: "nat \<Rightarrow> nat \<Rightarrow> char \<Rightarrow> bool" where
  "byte_in lo hi c = (lo \<le> of_char c \<and> of_char c \<le> hi)"

text \<open>Well-formed UTF-8 as the strict decoder of Python accepts it: no overlong forms, no
  surrogates, nothing above U+10FFFF.\<close>

fun utf8_valid :: "bytes \<Rightarrow> bool" where
  "utf8_valid [] = True"
| "utf8_valid (b # bs) =
     (if byte_in 0x00 0x7F b then utf8_valid bs
      else if byte_in 0xC2 0xDF b then
        (case bs of c1 # r \<Rightarrow> byte_in 0x80 0xBF c1 \<and> utf8_valid r | _ \<Rightarrow> False)
      else if byte_in 0xE0 0xEF b then
        (case bs of
           c1 # c2 # r \<Rightarrow>
             byte_in (if b = CHR 0xE0 then 0xA0 else 0x80) (if b = CHR 0xED then 0x9F else 0xBF) c1
             \<and> byte_in 0x80 0xBF c2 \<and> utf8_valid r
         | _ \<Rightarrow> False)
      else if byte_in 0xF0 0xF4 b then
        (case bs of
           c1 # c2 # c3 # r \<Rightarrow>
             byte_in (if b = CHR 0xF0 then 0x90 else 0x80) (if b = CHR 0xF4 then 0x8F else 0xBF) c1
             \<and> byte_in 0x80 0xBF c2 \<and> byte_in 0x80 0xBF c3 \<and> utf8_valid r
         | _ \<Rightarrow> False)
      else False)"

definition decode :: "bytes \<Rightarrow> error + string" where
  "decode bs = (if utf8_valid bs then Inr bs else Inl UnicodeDecodeError)"

definition encode :: "string \<Rightarrow> bytes" where
  "encode s = s"

text \<open>The length of the line boundary at the head of a text, 0 when there is none.  The
  boundaries of \<open>str.splitlines()\<close>: LF, VT, FF, CR, CR LF, FS, GS, RS, and in their UTF-8
  encodings NEL (U+0085), LS (U+2028) and PS (U+2029).\<close>

definition linebreak :: "string \<Rightarrow> nat" where
  "linebreak s =
     (if prefix [CHR 0x0D, CHR 0x0A] s then 2
      else if prefix [CHR 0xC2, CHR 0x85] s then 2
      else if prefix [CHR 0xE2, CHR 0x80, CHR 0xA8] s \<or> prefix [CHR 0xE2, CHR 0x80, CHR 0xA9] s then 3
      else if s \<noteq> [] \<and> hd s \<in> set [CHR 0x0A, CHR 0x0B, CHR 0x0C, CHR 0x0D, CHR 0x1C, CHR 0x1D, CHR 0x1E]
        then 1
      else 0)"

text \<open>\<open>splitlines_from k cur s\<close>: \<open>k\<close> bytes of a boundary are still to be skipped and
  \<open>cur\<close> is the line read so far.  No line is produced after the last boundary when
  nothing follows it.\<close>

fun splitlines_from :: "nat \<Rightarrow> string \<Rightarrow> string \<Rightarrow> string list" where
  "splitlines_from k cur [] = (if cur = [] then [] else [cur])"
| "splitlines_from (Suc k) cur (c # cs) = splitlines_from k cur cs"
| "splitlines_from 0 cur (c # cs) =
     (case linebreak (c # cs) of
        0 \<Rightarrow> splitlines_from 0 (cur @ [c]) cs
      | Suc n \<Rightarrow> cur # splitlines_from n [] cs)"

definition splitlines :: "string \<Rightarrow> string list" where
  "splitlines s = splitlines_from 0 [] s"

definition startswith :: "string \<Rightarrow> string \<Rightarrow> bool" where
  "startswith s pre = prefix pre s"

text \<open>\<open>str.lstrip('/')\<close>.\<close>

definition lstrip_slash :: "string \<Rightarrow> string" where
  "lstrip_slash s = dropWhile (\<lambda>c. c = CHR ''/'') s"

subsection \<open>Storage: payloads, filesystem trees, archive files\<close>

datatype payload =
    Raw bytes
  | Tar "(string list \<times> entry) list"
and entry =
    FileE payload nat      \<comment> \<open>a regular file: content and permission mode\<close>
  | DirE                   \<comment> \<open>a directory\<close>

type_synonym fstree = "(string list \<times> entry) list"

text \<open>Truthiness of a \<open>bytes\<close> value (\<open>if data:\<close>): it is not empty.  A tar archive is
  never empty: it holds at least a header block.\<close>

fun truthy :: "payload \<Rightarrow> bool" where
  "truthy (Raw bs) = (bs \<noteq> [])"
| "truthy (Tar ms) = True"

text \<open>\<open>bytes.decode()\<close> on a payload.  The text of a tar archive is outside this model:
  decoding one is taken to fail.\<close>

fun payload_decode :: "payload \<Rightarrow> error + string" where
  "payload_decode (Raw bs) = decode bs"
| "payload_decode (Tar ms) = Inl UnicodeDecodeError"

text \<open>The components of a path as \<open>pathlib\<close> keeps them: split at \<open>/\<close>, empty components
  and \<open>.\<close> dropped.\<close>

fun split_slash :: "string \<Rightarrow> string \<Rightarrow> string list" where
  "split_slash cur [] = [cur]"
| "split_slash cur (c # cs) =
     (if c = CHR ''/'' then cur # split_slash [] cs else split_slash (cur @ [c]) cs)"

definition path_parts :: "string \<Rightarrow> string list" where
  "path_parts s = filter (\<lambda>part. part \<noteq> [] \<and> part \<noteq> ''.'') (split_slash [] s)"

definition tree_exists :: "fstree \<Rightarrow> string list \<Rightarrow> bool" where
  "tree_exists t p = (p = [] \<or> map_of t p \<noteq> None)"

definition tree_is_dir :: "fstree \<Rightarrow> string list \<Rightarrow> bool" where
  "tree_is_dir t p = (p = [] \<or> map_of t p = Some DirE)"

text \<open>\<open>os.mkdir\<close> with \<open>exist_ok\<close>: a directory that is there already is accepted, a file in
  its place is not.\<close>

definition mkdir_one :: "string list \<Rightarrow> fstree \<Rightarrow> error + fstree" where
  "mkdir_one p t =
     (if p = [] then Inr t
      else case map_of t p of
        None \<Rightarrow> Inr (AList.update p DirE t)
      | Some DirE \<Rightarrow> Inr t
      | Some (FileE c m) \<Rightarrow> Inl OSError)"

fun mkdirs :: "string list list \<Rightarrow> fstree \<Rightarrow> error + fstree" where
  "mkdirs [] t = Inr t"
| "mkdirs (d # ds) t = (case mkdir_one d t of Inl e \<Rightarrow> Inl e | Inr t' \<Rightarrow> mkdirs ds t')"

text \<open>\<open>Path.mkdir(parents=True, exist_ok=True)\<close>: the directory and every ancestor of it,
  outermost first.\<close>

definition mkdir_parents :: "string list \<Rightarrow> fstree \<Rightarrow> error + fstree" where
  "mkdir_parents p t = mkdirs (prefixes p) t"

text \<open>\<open>Path.write_bytes\<close>: a new file gets the mode \<open>dflt\<close> of the process, an existing file
  keeps its mode; a directory cannot be written.\<close>

definition write_bytes :: "string list \<Rightarrow> payload \<Rightarrow> nat \<Rightarrow> fstree \<Rightarrow> error + fstree" where
  "write_bytes p d dflt t =
     (if p = [] then Inl OSError
      else case map_of t p of
        None \<Rightarrow> Inr (AList.update p (FileE d dflt) t)
      | Some (FileE c m) \<Rightarrow> Inr (AList.update p (FileE d m) t)
      | Some DirE \<Rightarrow> Inl OSError)"

definition chmod :: "string list \<Rightarrow> nat \<Rightarrow> fstree \<Rightarrow> fstree" where
  "chmod p m t =
     (case map_of t p of Some (FileE c m') \<Rightarrow> AList.update p (FileE c m) t | _ \<Rightarrow> t)"

text \<open>\<open>tar.add(full_path, arcname='.')\<close>: a directory gives a member for itself and one for
  every entry below it, named relative to it; a regular file gives the single member \<open>.\<close>.\<close>

definition tar_add :: "string list \<Rightarrow> fstree \<Rightarrow> (string list \<times> entry) list" where
  "tar_add p t =
     (case map_of t p of
        Some (FileE c m) \<Rightarrow> [([], FileE c m)]
      | _ \<Rightarrow> ([], DirE) # map (\<lambda>(q, e). (drop (length p) q, e)) (filter (\<lambda>(q, e). strict_prefix p q) t))"

text \<open>\<open>tar.extractall(full_path)\<close>, member by member: a directory member is created unless
  it is there, a file member is written with its own mode over what was there, with the
  directories above it created.  A member of one kind over an entry of the other kind
  is refused.\<close>

definition extract_member :: "string list \<Rightarrow> (string list \<times> entry) \<Rightarrow> fstree \<Rightarrow> error + fstree" where
  "extract_member base mem t =
     (let target = base @ fst mem in
      case snd mem of
        DirE \<Rightarrow> mkdir_one target t
      | FileE c m \<Rightarrow>
          (if tree_is_dir t target then Inl OSError
           else case mkdir_parents (butlast target) t of
             Inl e \<Rightarrow> Inl e
           | Inr t' \<Rightarrow> Inr (AList.update target (FileE c m) t')))"

fun extractall :: "string list \<Rightarrow> (string list \<times> entry) list \<Rightarrow> fstree \<Rightarrow> error + fstree" where
  "extractall base [] t = Inr t"
| "extractall base (mem # ms) t =
     (case extract_member base mem t of Inl e \<Rightarrow> Inl e | Inr t' \<Rightarrow> extractall base ms t')"

text \<open>The manifest that \<open>save_backup\<close> builds.\<close>

record manifest =
  created_at :: string
  host :: string
  script_version :: string
  components :: "string list"

text \<open>A member of a \<open>tar.gz\<close> archive file: a regular file with its content, or
  anything else (a directory, a link).\<close>

datatype member = RegFile payload | NonFile

text \<open>The member \<open>manifest.json\<close> of an archive file is represented by what
  \<open>json.loads\<close> makes of it: a manifest, or an exception.\<close>

datatype manifest_member = ManifestJson manifest | ManifestUnparsable

text \<open>What can stand at the archive path: a stream that \<open>tarfile.open(..., 'r:gz')\<close>
  refuses (the empty gzip stream of a writer that was closed before it wrote a member,
  or any other bytes), or a gzip-compressed tar with its members in order.\<close>

datatype archive_file =
    EmptyGzip
  | Corrupt
  | TarGz "manifest_member option" "(string \<times> member) list"

subsection \<open>\<open>FilesystemAdapter\<close>\<close>

text \<open>The adapter holds the tree under its \<open>root_path\<close> and the dry-run flag.\<close>

record FilesystemAdapter =
  root :: fstree
  fs_dry_run :: bool

text \<open>The mode of a file that \<open>write_bytes\<close> creates: \<open>0o666\<close> under the usual umask
  \<open>0o022\<close>, that is \<open>0o644\<close>.\<close>

definition new_file_mode :: nat where
  "new_file_mode = 6 * 64 + 4 * 8 + 4"

text \<open>\<open>_full_path\<close>: the path below the root, \<open>root_path / path.lstrip('/')\<close>.\<close>

definition full_path :: "string \<Rightarrow> string list" where
  "full_path p = path_parts (lstrip_slash p)"

definition fs_exists :: "FilesystemAdapter \<Rightarrow> string \<Rightarrow> bool" where
  "fs_exists a p = tree_exists (root a) (full_path p)"

text \<open>\<open>read_file\<close>: absent when the path does not exist, and when \<open>read_bytes\<close> raises
  (the path is a directory).\<close>

definition fs_read_file :: "FilesystemAdapter \<Rightarrow> string \<Rightarrow> payload option" where
  "fs_read_file a p =
     (if \<not> tree_exists (root a) (full_path p) then None
      else case map_of (root a) (full_path p) of
        Some (FileE c m) \<Rightarrow> Some c
      | _ \<Rightarrow> None)"

definition fs_write_file ::
  "FilesystemAdapter \<Rightarrow> string \<Rightarrow> payload \<Rightarrow> nat option \<Rightarrow> error + FilesystemAdapter" where
  "fs_write_file a p d mode =
     (if fs_dry_run a then Inr a
      else case mkdir_parents (butlast (full_path p)) (root a) of
        Inl e \<Rightarrow> Inl e
      | Inr t \<Rightarrow>
          (case write_bytes (full_path p) d new_file_mode t of
             Inl e \<Rightarrow> Inl e
           | Inr t' \<Rightarrow>
               Inr (a\<lparr>root := (case mode of None \<Rightarrow> t' | Some m \<Rightarrow> chmod (full_path p) m t')\<rparr>)))"

definition fs_read_directory :: "FilesystemAdapter \<Rightarrow> string \<Rightarrow> payload option" where
  "fs_read_directory a p =
     (if \<not> tree_exists (root a) (full_path p) then None
      else Some (Tar (tar_add (full_path p) (root a))))"

definition fs_write_directory ::
  "FilesystemAdapter \<Rightarrow> string \<Rightarrow> payload \<Rightarrow> error + FilesystemAdapter" where
  "fs_write_directory a p d =
     (if fs_dry_run a then Inr a
      else case mkdir_parents (full_path p) (root a) of
        Inl e \<Rightarrow> Inl e
      | Inr t \<Rightarrow>
          (case d of
             Raw bs \<Rightarrow> Inl ReadError
           | Tar ms \<Rightarrow>
               (case extractall (full_path p) ms t of
                  Inl e \<Rightarrow> Inl e
                | Inr t' \<Rightarrow> Inr (a\<lparr>root := t'\<rparr>))))"

subsection \<open>\<open>BackupAdapter\<close>\<close>

text \<open>The adapter's fields: \<open>mode\<close>, \<open>dry_run\<close>, the entry map \<open>_data\<close> (a Python
  dictionary keeps insertion order, and assigning to a key that is there keeps its
  place: \<open>AList.update\<close>) and \<open>_metadata\<close> (\<open>None\<close> is the empty dictionary).  The
  file at \<open>backup_path\<close> is passed to the functions that touch it.\<close>

record BackupAdapter =
  bk_mode :: string
  bk_dry_run :: bool
  bk_data :: "(string \<times> payload) list"
  bk_metadata :: "manifest option"

text \<open>The loop over \<open>tar.getmembers()\<close> of \<open>_load_backup\<close>.\<close>

fun load_members :: "(string \<times> member) list \<Rightarrow> (string \<times> payload) list \<Rightarrow> (string \<times> payload) list" where
  "load_members [] d = d"
| "load_members ((nm, m) # ms) d =
     load_members ms
       (case m of
          RegFile c \<Rightarrow> if startswith nm ''data/'' then AList.update (drop 5 nm) c d else d
        | NonFile \<Rightarrow> d)"

text \<open>\<open>_load_backup\<close>: every exception is caught and logged, and the adapter keeps what
  it had loaded by then: nothing when the file cannot be opened, nothing when the
  manifest does not parse (the entries are read after it).\<close>

definition load_backup :: "archive_file \<Rightarrow> BackupAdapter \<Rightarrow> BackupAdapter" where
  "load_backup f a =
     (case f of
        TarGz man ms \<Rightarrow>
          (case man of
             None \<Rightarrow> a\<lparr>bk_data := load_members ms (bk_data a)\<rparr>
           | Some (ManifestJson m) \<Rightarrow>
               a\<lparr>bk_metadata := Some m, bk_data := load_members ms (bk_data a)\<rparr>
           | Some ManifestUnparsable \<Rightarrow> a)
      | _ \<Rightarrow> a)"

text \<open>\<open>__init__\<close>, given what stands at \<open>backup_path\<close> (\<open>None\<close>: no file).\<close>

definition BackupAdapter_init :: "archive_file option \<Rightarrow> string \<Rightarrow> bool \<Rightarrow> BackupAdapter" where
  "BackupAdapter_init disk mode dry_run =
     (let a = \<lparr>bk_mode = mode, bk_dry_run = dry_run, bk_data = [], bk_metadata = None\<rparr> in
      case disk of
        Some f \<Rightarrow> if mode = ''r'' then load_backup f a else a
      | None \<Rightarrow> a)"

text \<open>The process environment that \<open>save_backup\<close> asks: the output of \<open>date -Is\<close> and
  of \<open>hostname\<close>, decoded and stripped.\<close>

record env =
  date_Is :: string
  hostname :: string

definition build_manifest :: "env \<Rightarrow> BackupAdapter \<Rightarrow> manifest" where
  "build_manifest ev a =
     \<lparr>created_at = date_Is ev, host = hostname ev, script_version = ''2025.08.20-5'',
      components = map fst (bk_data a)\<rparr>"

text \<open>\<open>save_backup\<close>, returning the exception raised, if any, and what stands at
  \<open>backup_path\<close> afterwards.  Without dry-run: \<open>tarfile.open(backup_path, 'w:gz')\<close>
  creates the file, or truncates the one that is there; the manifest dictionary and its
  JSON text are built; then the argument \<open>tempfile.BytesIO(manifest_json)\<close> of the first
  \<open>tar.addfile\<close> is evaluated.  The module \<open>tempfile\<close> has no attribute \<open>BytesIO\<close> (the
  class is \<open>io.BytesIO\<close>), so this raises \<open>AttributeError\<close> before any member is added.
  Leaving the \<open>with\<close> block on an exception closes the gzip stream without writing a
  tar block: the file is left as an empty gzip stream.\<close>

definition save_backup :: "env \<Rightarrow> BackupAdapter \<Rightarrow> archive_file option \<Rightarrow> error option \<times> archive_file option" where
  "save_backup ev a disk =
     (if bk_dry_run a then (None, disk)
      else let manifest = build_manifest ev a in (Some AttributeError, Some EmptyGzip))"

definition bk_exists :: "BackupAdapter \<Rightarrow> string \<Rightarrow> bool" where
  "bk_exists a p = (p \<in> fst ` set (bk_data a))"

definition bk_read_file :: "BackupAdapter \<Rightarrow> string \<Rightarrow> payload option" where
  "bk_read_file a p = map_of (bk_data a) p"

definition bk_write_file :: "BackupAdapter \<Rightarrow> string \<Rightarrow> payload \<Rightarrow> nat option \<Rightarrow> BackupAdapter" where
  "bk_write_file a p d mode = a\<lparr>bk_data := AList.update p d (bk_data a)\<rparr>"

definition bk_read_directory :: "BackupAdapter \<Rightarrow> string \<Rightarrow> payload option" where
  "bk_read_directory a p = map_of (bk_data a) p"

definition bk_write_directory :: "BackupAdapter \<Rightarrow> string \<Rightarrow> payload \<Rightarrow> BackupAdapter" where
  "bk_write_directory a p d = a\<lparr>bk_data := AList.update p d (bk_data a)\<rparr>"

subsection \<open>\<open>StateAdapter\<close>: the two variants behind one interface\<close>

datatype adapter = Filesystem FilesystemAdapter | Backup BackupAdapter

fun adapter_exists :: "adapter \<Rightarrow> string \<Rightarrow> bool" where
  "adapter_exists (Filesystem a) p = fs_exists a p"
| "adapter_exists (Backup a) p = bk_exists a p"

fun read_file :: "adapter \<Rightarrow> string \<Rightarrow> payload option" where
  "read_file (Filesystem a) p = fs_read_file a p"
| "read_file (Backup a) p = bk_read_file a p"

fun write_file :: "adapter \<Rightarrow> string \<Rightarrow> payload \<Rightarrow> nat option \<Rightarrow> error + adapter" where
  "write_file (Filesystem a) p d mode = map_sum id Filesystem (fs_write_file a p d mode)"
| "write_file (Backup a) p d mode = Inr (Backup (bk_write_file a p d mode))"

fun read_directory :: "adapter \<Rightarrow> string \<Rightarrow> payload option" where
  "read_directory (Filesystem a) p = fs_read_directory a p"
| "read_directory (Backup a) p = bk_read_directory a p"

fun write_directory :: "adapter \<Rightarrow> string \<Rightarrow> payload \<Rightarrow> error + adapter" where
  "write_directory (Filesystem a) p d = map_sum id Filesystem (fs_write_directory a p d)"
| "write_directory (Backup a) p d = Inr (Backup (bk_write_directory a p d))"

subsection \<open>The component registry\<close>

record StateComponent =
  name :: string
  path :: string
  component_type :: string
  required :: bool
  preserve_permissions :: bool
  special_handler :: "string option"

definition sonic_config :: StateComponent where
  "sonic_config =
     \<lparr>name = ''sonic_config'', path = ''/etc/sonic/config_db.json'', component_type = ''file'',
      required = True, preserve_permissions = True, special_handler = None\<rparr>"

definition user_data :: StateComponent where
  "user_data =
     \<lparr>name = ''user_data'', path = ''/home'', component_type = ''directory'',
      required = True, preserve_permissions = True, special_handler = Some ''home_directories''\<rparr>"

definition ssh_infrastructure :: StateComponent where
  "ssh_infrastructure =
     \<lparr>name = ''ssh_infrastructure'', path = ''/etc/ssh'', component_type = ''directory'',
      required = True, preserve_permissions = True, special_handler = Some ''ssh_config''\<rparr>"

definition system_mounts :: StateComponent where
  "system_mounts =
     \<lparr>name = ''system_mounts'', path = ''/etc/fstab'', component_type = ''file'',
      required = True, preserve_permissions = True, special_handler = None\<rparr>"

definition fan_control :: StateComponent where
  "fan_control =
     \<lparr>name = ''fan_control'', path = ''/etc/sonic/custom-fan/fancontrol'', component_type = ''file'',
      required = False, preserve_permissions = True, special_handler = None\<rparr>"

definition admin_auth :: StateComponent where
  "admin_auth =
     \<lparr>name = ''admin_auth'', path = ''/etc/shadow'', component_type = ''file'',
      required = True, preserve_permissions = True, special_handler = Some ''admin_shadow''\<rparr>"

text \<open>The values of the dictionary \<open>SONIC_STATE_COMPONENTS\<close>, in insertion order, as the
  loops of the operations visit them.\<close>

definition SONIC_STATE_COMPONENTS :: "StateComponent list" where
  "SONIC_STATE_COMPONENTS =
     [sonic_config, user_data, ssh_infrastructure, system_mounts, fan_control, admin_auth]"

subsection \<open>\<open>StateManager._handle_special_component\<close>\<close>

text \<open>A handler returns the exception it raised or the boolean it returned, and the
  destination adapter as it is then.\<close>

definition mode_0o600 :: nat where
  "mode_0o600 = 6 * 64"

definition mode_0o644 :: nat where
  "mode_0o644 = 6 * 64 + 4 * 8 + 4"

text \<open>The branch \<open>admin_shadow\<close>.\<close>

definition handle_admin_shadow :: "StateComponent \<Rightarrow> adapter \<Rightarrow> adapter \<Rightarrow> (error + bool) \<times> adapter" where
  "handle_admin_shadow c source dest =
     (case read_file source (path c) of
        None \<Rightarrow> (Inr False, dest)
      | Some shadow_data \<Rightarrow>
          if truthy shadow_data then
            (case payload_decode shadow_data of
               Inl e \<Rightarrow> (Inl e, dest)
             | Inr txt \<Rightarrow>
                 (case filter (\<lambda>line. startswith line ''admin:'') (splitlines txt) of
                    [] \<Rightarrow> (Inr False, dest)
                  | line0 # others \<Rightarrow>
                      (case write_file dest ''meta/shadow.admin'' (Raw (encode line0)) None of
                         Inl e \<Rightarrow> (Inl e, dest)
                       | Inr dest' \<Rightarrow> (Inr True, dest'))))
          else (Inr False, dest))"

text \<open>The branch \<open>ssh_config\<close>: the inner loop over the two suffixes (none, and \<open>.pub\<close>),
  the outer loop over the key types, and the branch itself.\<close>

fun ssh_suffix_loop :: "string \<Rightarrow> string \<Rightarrow> string list \<Rightarrow> adapter \<Rightarrow> adapter \<Rightarrow> (error + unit) \<times> adapter" where
  "ssh_suffix_loop base_path key_type [] source dest = (Inr (), dest)"
| "ssh_suffix_loop base_path key_type (sfx # rest) source dest =
     (let key_path = base_path @ ''/ssh_host_'' @ key_type @ ''_key'' @ sfx in
      case read_file source key_path of
        None \<Rightarrow> ssh_suffix_loop base_path key_type rest source dest
      | Some key_data \<Rightarrow>
          if truthy key_data then
            (case write_file dest key_path key_data
                    (Some (if sfx = [] then mode_0o600 else mode_0o644)) of
               Inl e \<Rightarrow> (Inl e, dest)
             | Inr dest' \<Rightarrow> ssh_suffix_loop base_path key_type rest source dest')
          else ssh_suffix_loop base_path key_type rest source dest)"

fun ssh_key_loop :: "string \<Rightarrow> string list \<Rightarrow> adapter \<Rightarrow> adapter \<Rightarrow> (error + unit) \<times> adapter" where
  "ssh_key_loop base_path [] source dest = (Inr (), dest)"
| "ssh_key_loop base_path (key_type # rest) source dest =
     (case ssh_suffix_loop base_path key_type [[], ''.pub''] source dest of
        (Inl e, dest') \<Rightarrow> (Inl e, dest')
      | (Inr u, dest') \<Rightarrow> ssh_key_loop base_path rest source dest')"

definition ssh_copy_config :: "string \<Rightarrow> adapter \<Rightarrow> adapter \<Rightarrow> (error + unit) \<times> adapter" where
  "ssh_copy_config base_path source dest =
     (case read_file source (base_path @ ''/sshd_config'') of
        None \<Rightarrow> (Inr (), dest)
      | Some config_data \<Rightarrow>
          if truthy config_data then
            (case write_file dest (base_path @ ''/sshd_config'') config_data None of
               Inl e \<Rightarrow> (Inl e, dest)
             | Inr dest' \<Rightarrow> (Inr (), dest'))
          else (Inr (), dest))"

definition ssh_copy_config_d :: "string \<Rightarrow> adapter \<Rightarrow> adapter \<Rightarrow> (error + unit) \<times> adapter" where
  "ssh_copy_config_d base_path source dest =
     (case read_directory source (base_path @ ''/sshd_config.d'') of
        None \<Rightarrow> (Inr (), dest)
      | Some config_d_data \<Rightarrow>
          if truthy config_d_data then
            (case write_directory dest (base_path @ ''/sshd_config.d'') config_d_data of
               Inl e \<Rightarrow> (Inl e, dest)
             | Inr dest' \<Rightarrow> (Inr (), dest'))
          else (Inr (), dest))"

definition handle_ssh_config :: "StateComponent \<Rightarrow> adapter \<Rightarrow> adapter \<Rightarrow> (error + bool) \<times> adapter" where
  "handle_ssh_config c source dest =
     (let base_path = path c in
      case ssh_copy_config base_path source dest of
        (Inl e, d1) \<Rightarrow> (Inl e, d1)
      | (Inr u1, d1) \<Rightarrow>
          (case ssh_copy_config_d base_path source d1 of
             (Inl e, d2) \<Rightarrow> (Inl e, d2)
           | (Inr u2, d2) \<Rightarrow>
               (case ssh_key_loop base_path [''rsa'', ''ecdsa'', ''ed25519''] source d2 of
                  (Inl e, d3) \<Rightarrow> (Inl e, d3)
                | (Inr u3, d3) \<Rightarrow> (Inr True, d3))))"

text \<open>The branch \<open>home_directories\<close>.\<close>

definition handle_home_directories :: "StateComponent \<Rightarrow> adapter \<Rightarrow> adapter \<Rightarrow> (error + bool) \<times> adapter" where
  "handle_home_directories c source dest =
     (case read_directory source (path c) of
        None \<Rightarrow> (Inr False, dest)
      | Some home_data \<Rightarrow>
          if truthy home_data then
            (case write_directory dest (path c) home_data of
               Inl e \<Rightarrow> (Inl e, dest)
             | Inr dest' \<Rightarrow> (Inr True, dest'))
          else (Inr False, dest))"

definition handle_special_component :: "StateComponent \<Rightarrow> adapter \<Rightarrow> adapter \<Rightarrow> (error + bool) \<times> adapter" where
  "handle_special_component c source dest =
     (if special_handler c = Some ''admin_shadow'' then handle_admin_shadow c source dest
      else if special_handler c = Some ''ssh_config'' then handle_ssh_config c source dest
      else if special_handler c = Some ''home_directories'' then handle_home_directories c source dest
      else (Inr False, dest))"

subsection \<open>The operations of \<open>StateManager\<close>\<close>

text \<open>The block "standard handling" of a loop body, the same statements in
  \<open>backup_state\<close>, \<open>restore_state\<close> and \<open>migrate_state\<close> but for the text that is logged.
  It returns the new value of \<open>success\<close>.\<close>

definition standard_copy :: "StateComponent \<Rightarrow> adapter \<Rightarrow> adapter \<Rightarrow> bool \<Rightarrow> (error + bool) \<times> adapter" where
  "standard_copy c source dest success =
     (if component_type c = ''file'' then
        (case read_file source (path c) of
           None \<Rightarrow> (Inr (if required c then False else success), dest)
         | Some d \<Rightarrow>
             if truthy d then
               (case write_file dest (path c) d None of
                  Inl e \<Rightarrow> (Inl e, dest)
                | Inr dest' \<Rightarrow> (Inr success, dest'))
             else (Inr (if required c then False else success), dest))
      else if component_type c = ''directory'' then
        (case read_directory source (path c) of
           None \<Rightarrow> (Inr (if required c then False else success), dest)
         | Some d \<Rightarrow>
             if truthy d then
               (case write_directory dest (path c) d of
                  Inl e \<Rightarrow> (Inl e, dest)
                | Inr dest' \<Rightarrow> (Inr success, dest'))
             else (Inr (if required c then False else success), dest))
      else (Inr success, dest))"

text \<open>Truthiness of \<open>component.special_handler\<close>: a handler is named.\<close>

definition has_special_handler :: "StateComponent \<Rightarrow> bool" where
  "has_special_handler c = (case special_handler c of None \<Rightarrow> False | Some h \<Rightarrow> h \<noteq> [])"

text \<open>The loop body of \<open>backup_state\<close> and of \<open>migrate_state\<close>: the special handler
  first; \<open>continue\<close> when it returns true.\<close>

definition copy_component :: "StateComponent \<Rightarrow> adapter \<Rightarrow> adapter \<Rightarrow> bool \<Rightarrow> (error + bool) \<times> adapter" where
  "copy_component c source dest success =
     (if has_special_handler c then
        (case handle_special_component c source dest of
           (Inl e, dest') \<Rightarrow> (Inl e, dest')
         | (Inr handled, dest') \<Rightarrow>
             if handled then (Inr success, dest') else standard_copy c source dest' success)
      else standard_copy c source dest success)"

fun copy_loop :: "StateComponent list \<Rightarrow> adapter \<Rightarrow> adapter \<Rightarrow> bool \<Rightarrow> (error + bool) \<times> adapter" where
  "copy_loop [] source dest success = (Inr success, dest)"
| "copy_loop (c # cs) source dest success =
     (case copy_component c source dest success of
        (Inl e, dest') \<Rightarrow> (Inl e, dest')
      | (Inr success', dest') \<Rightarrow> copy_loop cs source dest' success')"

text \<open>The loop body of \<open>restore_state\<close>: the component with the handler \<open>admin_shadow\<close>
  is read and logged only.\<close>

definition restore_component :: "StateComponent \<Rightarrow> adapter \<Rightarrow> adapter \<Rightarrow> bool \<Rightarrow> (error + bool) \<times> adapter" where
  "restore_component c backup target success =
     (if special_handler c = Some ''admin_shadow'' then
        (let admin_data = read_file backup ''meta/shadow.admin'';
             logged = ((case admin_data of None \<Rightarrow> False | Some d \<Rightarrow> truthy d)
                        \<and> adapter_exists target (path c))
         in (Inr success, target))
      else standard_copy c backup target success)"

fun restore_loop :: "StateComponent list \<Rightarrow> adapter \<Rightarrow> adapter \<Rightarrow> bool \<Rightarrow> (error + bool) \<times> adapter" where
  "restore_loop [] backup target success = (Inr success, target)"
| "restore_loop (c # cs) backup target success =
     (case restore_component c backup target success of
        (Inl e, target') \<Rightarrow> (Inl e, target')
      | (Inr success', target') \<Rightarrow> restore_loop cs backup target' success')"

text \<open>What an adapter holds when the operation ends.\<close>

fun adapter_root :: "adapter \<Rightarrow> fstree \<Rightarrow> fstree" where
  "adapter_root (Filesystem a) dflt = root a"
| "adapter_root (Backup a) dflt = dflt"

fun adapter_backup :: "adapter \<Rightarrow> BackupAdapter \<Rightarrow> BackupAdapter" where
  "adapter_backup (Backup a) dflt = a"
| "adapter_backup (Filesystem a) dflt = dflt"

text \<open>\<open>backup_state\<close>: the result (an exception or the boolean returned), the tree under
  the source root and what stands at the archive path, both as the operation leaves
  them, and the entry map of the archive adapter.\<close>

definition backup_state ::
  "bool \<Rightarrow> env \<Rightarrow> fstree \<Rightarrow> archive_file option
     \<Rightarrow> (error + bool) \<times> fstree \<times> archive_file option \<times> (string \<times> payload) list" where
  "backup_state dry_run ev source_root disk =
     (let source = \<lparr>root = source_root, fs_dry_run = dry_run\<rparr>;
          backup = BackupAdapter_init disk ''w'' dry_run
      in case copy_loop SONIC_STATE_COMPONENTS (Filesystem source) (Backup backup) True of
        (Inl e, dest) \<Rightarrow> (Inl e, root source, disk, bk_data (adapter_backup dest backup))
      | (Inr success, dest) \<Rightarrow>
          (case save_backup ev (adapter_backup dest backup) disk of
             (Some e, disk') \<Rightarrow> (Inl e, root source, disk', bk_data (adapter_backup dest backup))
           | (None, disk') \<Rightarrow> (Inr success, root source, disk', bk_data (adapter_backup dest backup))))"

text \<open>\<open>restore_state\<close>: the result, what stands at the archive path and the tree under the
  target root.\<close>

definition restore_state ::
  "bool \<Rightarrow> archive_file option \<Rightarrow> fstree \<Rightarrow> (error + bool) \<times> archive_file option \<times> fstree" where
  "restore_state dry_run disk target_root =
     (let backup = BackupAdapter_init disk ''r'' dry_run;
          target = \<lparr>root = target_root, fs_dry_run = dry_run\<rparr>
      in case restore_loop SONIC_STATE_COMPONENTS (Backup backup) (Filesystem target) True of
        (r, dest) \<Rightarrow> (r, disk, adapter_root dest target_root))"

text \<open>\<open>migrate_state\<close>: the result and the trees under the source and the target root.\<close>

definition migrate_state ::
  "bool \<Rightarrow> fstree \<Rightarrow> fstree \<Rightarrow> (error + bool) \<times> fstree \<times> fstree" where
  "migrate_state dry_run source_root target_root =
     (let source = \<lparr>root = source_root, fs_dry_run = dry_run\<rparr>;
          target = \<lparr>root = target_root, fs_dry_run = dry_run\<rparr>
      in case copy_loop SONIC_STATE_COMPONENTS (Filesystem source) (Filesystem target) True of
        (r, dest) \<Rightarrow> (r, root source, adapter_root dest target_root))"

text \<open>\<open>validate_state\<close>: the loop only asks \<open>exists\<close>.\<close>

definition validate_component :: "StateComponent \<Rightarrow> adapter \<Rightarrow> bool \<Rightarrow> bool" where
  "validate_component c source success =
     (if component_type c = ''file'' then
        (if adapter_exists source (path c) then success
         else if required c then False else success)
      else if component_type c = ''directory'' then
        (if adapter_exists source (path c) then success
         else if required c then False else success)
      else success)"

fun validate_loop :: "StateComponent list \<Rightarrow> adapter \<Rightarrow> bool \<Rightarrow> bool" where
  "validate_loop [] source success = success"
| "validate_loop (c # cs) source success = validate_loop cs source (validate_component c source success)"

definition validate_state :: "bool \<Rightarrow> fstree \<Rightarrow> bool \<times> fstree" where
  "validate_state dry_run source_root =
     (let source = \<lparr>root = source_root, fs_dry_run = dry_run\<rparr>
      in (validate_loop SONIC_STATE_COMPONENTS (Filesystem source) True, root source))"

subsection \<open>Vocabulary of the statements\<close>

text \<open>A read that gives the loop something to copy: data that is there and not empty.\<close>

definition file_found :: "adapter \<Rightarrow> string \<Rightarrow> bool" where
  "file_found source p = (case read_file source p of None \<Rightarrow> False | Some d \<Rightarrow> truthy d)"

definition directory_found :: "adapter \<Rightarrow> string \<Rightarrow> bool" where
  "directory_found source p = (case read_directory source p of None \<Rightarrow> False | Some d \<Rightarrow> truthy d)"

text \<open>The credential file, when it is there and not empty, is UTF-8 text.\<close>

definition shadow_decodes :: "adapter \<Rightarrow> bool" where
  "shadow_decodes source =
     (case read_file source ''/etc/shadow'' of
        None \<Rightarrow> True
      | Some d \<Rightarrow> (case payload_decode d of Inl e \<Rightarrow> \<not> truthy d | Inr txt \<Rightarrow> True))"

text \<open>A set of destinations on which no write raises and which no write leaves: a
  dry-run filesystem adapter, and the archive adapters.\<close>

definition writes_succeed :: "(adapter \<Rightarrow> bool) \<Rightarrow> bool" where
  "writes_succeed P =
     ((\<forall>d p x m. P d \<longrightarrow> (\<exists>d'. write_file d p x m = Inr d' \<and> P d')) \<and>
      (\<forall>d p x. P d \<longrightarrow> (\<exists>d'. write_directory d p x = Inr d' \<and> P d')))"

text \<open>What the loops of the operations count as present, component by component: the
  SSH bundle always, an optional component always, and in \<open>restore_state\<close> also the
  credential component; otherwise the read of the component's path must give data.\<close>

definition copy_finds :: "adapter \<Rightarrow> StateComponent \<Rightarrow> bool" where
  "copy_finds source c =
     (special_handler c = Some ''ssh_config'' \<or> \<not> required c \<or>
      (if component_type c = ''file'' then file_found source (path c)
       else directory_found source (path c)))"

definition restore_finds :: "adapter \<Rightarrow> StateComponent \<Rightarrow> bool" where
  "restore_finds backup c =
     (special_handler c = Some ''admin_shadow'' \<or> \<not> required c \<or>
      (if component_type c = ''file'' then file_found backup (path c)
       else directory_found backup (path c)))"


text \<open>The archive file that the statements of \<open>save_backup\<close> describe: the member
  \<open>manifest.json\<close>, then one member \<open>data/\<close>\<open>path\<close> for every entry.\<close>

definition archive_described :: "env \<Rightarrow> BackupAdapter \<Rightarrow> archive_file" where
  "archive_described ev a =
     TarGz (Some (ManifestJson (build_manifest ev a)))
       (map (\<lambda>(p, d). (''data/'' @ p, RegFile d)) (bk_data a))"

subsection \<open>Example inputs\<close>

definition example_env :: env where
  "example_env = \<lparr>date_Is = ''2025-08-20T12:00:00+00:00'', hostname = ''sonic''\<rparr>"

text \<open>A root populated with every component of the registry.\<close>

definition populated_root :: fstree where
  "populated_root =
    [([''etc''], DirE),
     ([''etc'', ''sonic''], DirE),
     ([''etc'', ''sonic'', ''config_db.json''], FileE (Raw ''{a:1}'') 420),
     ([''home''], DirE),
     ([''home'', ''admin''], DirE),
     ([''home'', ''admin'', ''.profile''], FileE (Raw ''export A=1'') 420),
     ([''etc'', ''ssh''], DirE),
     ([''etc'', ''ssh'', ''sshd_config''], FileE (Raw ''Port 22'') 420),
     ([''etc'', ''ssh'', ''ssh_host_rsa_key''], FileE (Raw ''PRIVATE'') 420),
     ([''etc'', ''ssh'', ''ssh_host_rsa_key.pub''], FileE (Raw ''PUBLIC'') 384),
     ([''etc'', ''fstab''], FileE (Raw ''/dev/sda1 / ext4'') 420),
     ([''etc'', ''sonic'', ''custom-fan''], DirE),
     ([''etc'', ''sonic'', ''custom-fan'', ''fancontrol''], FileE (Raw ''INTERVAL=10'') 420),
     ([''etc'', ''shadow''], FileE (Raw ''root:*:1\<newline>admin:$6$x:2\<newline>'') 416)]"

text \<open>The same root with the required file \<open>/etc/fstab\<close> absent.\<close>

definition root_without_fstab :: fstree where
  "root_without_fstab = AList.delete [''etc'', ''fstab''] populated_root"

text \<open>The entries that the loop of \<open>backup_state\<close> collects from the populated root.\<close>

definition populated_entries :: "(string \<times> payload) list" where
  "populated_entries =
    [(''/etc/sonic/config_db.json'', Raw ''{a:1}''),
     (''/home'', Tar [([], DirE), ([''admin''], DirE),
                      ([''admin'', ''.profile''], FileE (Raw ''export A=1'') 420)]),
     (''/etc/ssh/sshd_config'', Raw ''Port 22''),
     (''/etc/ssh/ssh_host_rsa_key'', Raw ''PRIVATE''),
     (''/etc/ssh/ssh_host_rsa_key.pub'', Raw ''PUBLIC''),
     (''/etc/fstab'', Raw ''/dev/sda1 / ext4''),
     (''/etc/sonic/custom-fan/fancontrol'', Raw ''INTERVAL=10''),
     (''meta/shadow.admin'', Raw ''admin:$6$x:2'')]"

text \<open>The populated root without the directory \<open>/etc/ssh\<close> and what is below it.\<close>

definition root_without_ssh :: fstree where
  "root_without_ssh = filter (\<lambda>(p, e). \<not> prefix [''etc'', ''ssh''] p) populated_root"

text \<open>An archive file with an entry for every component that \<open>restore_state\<close> counts,
  and an empty entry for the credential file.\<close>

definition archive_with_empty_shadow :: archive_file where
  "archive_with_empty_shadow =
     TarGz None
       [(''data//etc/sonic/config_db.json'', RegFile (Raw ''{a:1}'')),
        (''data//home'', RegFile (Tar [([], DirE)])),
        (''data//etc/ssh'', RegFile (Tar [([], DirE)])),
        (''data//etc/fstab'', RegFile (Raw ''/dev/sda1 / ext4'')),
        (''data//etc/shadow'', RegFile (Raw []))]"

text \<open>A source whose private RSA host key is there and empty, and a target that holds a
  private key readable by everyone.\<close>

definition root_with_empty_key :: fstree where
  "root_with_empty_key =
    [([''etc''], DirE),
     ([''etc'', ''ssh''], DirE),
     ([''etc'', ''ssh'', ''ssh_host_rsa_key''], FileE (Raw []) 384),
     ([''etc'', ''ssh'', ''ssh_host_rsa_key.pub''], FileE (Raw ''PUBLIC'') 420)]"

definition target_with_old_key :: fstree where
  "target_with_old_key =
    [([''etc''], DirE),
     ([''etc'', ''ssh''], DirE),
     ([''etc'', ''ssh'', ''ssh_host_rsa_key''], FileE (Raw ''OLD'') 420)]"



text \<open>An empty archive adapter, as \<open>__init__\<close> leaves it in write mode.\<close>

definition empty_backup :: BackupAdapter where
  "empty_backup = \<lparr>bk_mode = ''w'', bk_dry_run = False, bk_data = [], bk_metadata = None\<rparr>"

section \<open>Properties\<close>

subsection \<open>Paths, registry and association lists\<close>

lemma full_path_registry:
  "full_path ''/etc/sonic/config_db.json'' = [''etc'', ''sonic'', ''config_db.json'']"
  "full_path ''/home'' = [''home'']"
  "full_path ''/etc/ssh'' = [''etc'', ''ssh'']"
  "full_path ''/etc/fstab'' = [''etc'', ''fstab'']"
  "full_path ''/etc/sonic/custom-fan/fancontrol'' = [''etc'', ''sonic'', ''custom-fan'', ''fancontrol'']"
  "full_path ''/etc/shadow'' = [''etc'', ''shadow'']"
  "full_path ''meta/shadow.admin'' = [''meta'', ''shadow.admin'']"
  by (simp_all add: full_path_def path_parts_def lstrip_slash_def)

lemmas registry_defs = SONIC_STATE_COMPONENTS_def sonic_config_def user_data_def
  ssh_infrastructure_def system_mounts_def fan_control_def admin_auth_def

lemma map_of_update_same: "map_of (AList.update k v al) k = Some v"
  by (simp add: update_conv')

lemma map_of_update_other: "k' \<noteq> k \<Longrightarrow> map_of (AList.update k v al) k' = map_of al k'"
  by (simp add: update_conv')

lemma write_bytes_entry:
  "write_bytes p d dflt t = Inr t' \<Longrightarrow> \<exists>m. map_of t' p = Some (FileE d m)"
  by (auto simp: write_bytes_def map_of_update_same split: if_splits option.splits entry.splits)

lemma chmod_entry:
  "map_of t p = Some (FileE d m0) \<Longrightarrow> map_of (chmod p m t) p = Some (FileE d m)"
  by (simp add: chmod_def map_of_update_same)

lemma fs_write_file_mode:
  assumes "\<not> fs_dry_run f" "fs_write_file f p d (Some m) = Inr f'"
  shows "map_of (root f') (full_path p) = Some (FileE d m)"
proof -
  from assms obtain t t' where
    t': "write_bytes (full_path p) d new_file_mode t = Inr t'"
    and f': "f' = f\<lparr>root := chmod (full_path p) m t'\<rparr>"
    by (auto simp: fs_write_file_def split: sum.splits)
  from write_bytes_entry[OF t'] obtain m0 where "map_of t' (full_path p) = Some (FileE d m0)" ..
  then show ?thesis using f' by (simp add: chmod_entry)
qed

subsection \<open>\<open>validate_state\<close>\<close>

lemma validate_loop_conj:
  "validate_loop cs source success =
     (success \<and> (\<forall>c\<in>set cs. (component_type c = ''file'' \<or> component_type c = ''directory'')
        \<longrightarrow> required c \<longrightarrow> adapter_exists source (path c)))"
  by (induction cs arbitrary: success) (auto simp: validate_component_def)

text \<open>
  C6.  \<open>validate_state\<close> returns true exactly when the path of every required component of the
  registry exists under the root: it is false as soon as the path of one required
  component is absent, true when all of them are present, and the optional component
  \<open>fan_control\<close> has no part in the result.
\<close>

theorem validate_state_required_paths:
  "fst (validate_state dry_run t) =
     (\<forall>c\<in>set SONIC_STATE_COMPONENTS. required c \<longrightarrow> tree_exists t (full_path (path c)))"
  unfolding validate_state_def Let_def fst_conv validate_loop_conj
  by (simp add: registry_defs fs_exists_def)

theorem validate_state_required_paths_witness:
  "fst (validate_state False populated_root) = True
   \<and> fst (validate_state False [([''home''], DirE)]) = False"
  using validate_state_required_paths[of False populated_root]
    validate_state_required_paths[of False "[([''home''], DirE)]"]
  by (simp add: registry_defs full_path_registry tree_exists_def populated_root_def)

subsection \<open>An archive path with no file\<close>

lemma BackupAdapter_init_missing:
  "BackupAdapter_init None ''r'' dry_run =
     \<lparr>bk_mode = ''r'', bk_dry_run = dry_run, bk_data = [], bk_metadata = None\<rparr>"
  by (simp add: BackupAdapter_init_def)

text \<open>
  C8.  Opening an archive adapter in read mode on a path with no file raises nothing: the
  adapter has no entry and no manifest, \<open>exists\<close> is false and \<open>read_file\<close> and
  \<open>read_directory\<close> are absent for every path, and \<open>restore_state\<close> from that path returns
  false, having written nothing to the target.
\<close>

theorem restore_from_missing_archive:
  "bk_data (BackupAdapter_init None ''r'' dry_run) = []
   \<and> bk_metadata (BackupAdapter_init None ''r'' dry_run) = None
   \<and> adapter_exists (Backup (BackupAdapter_init None ''r'' dry_run)) p = False
   \<and> read_file (Backup (BackupAdapter_init None ''r'' dry_run)) p = None
   \<and> read_directory (Backup (BackupAdapter_init None ''r'' dry_run)) p = None
   \<and> restore_state dry_run None target_root = (Inr False, None, target_root)"
  by (simp add: BackupAdapter_init_missing bk_exists_def bk_read_file_def bk_read_directory_def
      restore_state_def registry_defs restore_component_def standard_copy_def)

theorem restore_from_missing_archive_witness:
  "restore_state False None populated_root = (Inr False, None, populated_root)
   \<and> read_file (Backup (BackupAdapter_init None ''r'' False)) ''/etc/fstab'' = None"
  using restore_from_missing_archive[of False "''/etc/fstab''" populated_root]
  by simp

subsection \<open>The archive adapter keeps no permission mode\<close>

text \<open>
  C10.  \<open>write_file\<close> of the archive adapter does not look at its mode argument: for every
  path, data and mode it stores the data under the path, and nothing else, so two writes
  that differ in the mode give the same adapter and reading the path back gives the data.
  A mode is recorded only by the filesystem adapter: there, a write that is not a dry
  run and does not raise leaves a file with the data and the mode asked for.
\<close>

theorem archive_write_file_ignores_mode:
  "write_file (Backup a) p d mode = Inr (Backup (a\<lparr>bk_data := AList.update p d (bk_data a)\<rparr>))
   \<and> bk_write_file a p d mode = bk_write_file a p d mode'
   \<and> read_file (Backup (bk_write_file a p d mode)) p = Some d
   \<and> (\<forall>f'. \<not> fs_dry_run f \<and> fs_write_file f p d (Some m) = Inr f'
         \<longrightarrow> map_of (root f') (full_path p) = Some (FileE d m))"
  using fs_write_file_mode[of f p d m]
  by (simp add: bk_write_file_def bk_read_file_def map_of_update_same)

theorem archive_write_file_ignores_mode_witness:
  "write_file (Backup empty_backup) ''/etc/ssh/ssh_host_rsa_key'' (Raw ''PRIVATE'') (Some mode_0o600)
     = Inr (Backup (empty_backup\<lparr>bk_data := [(''/etc/ssh/ssh_host_rsa_key'', Raw ''PRIVATE'')]\<rparr>))
   \<and> bk_write_file empty_backup ''/etc/ssh/ssh_host_rsa_key'' (Raw ''PRIVATE'') (Some mode_0o600)
     = bk_write_file empty_backup ''/etc/ssh/ssh_host_rsa_key'' (Raw ''PRIVATE'') None
   \<and> fs_write_file \<lparr>root = [], fs_dry_run = False\<rparr> ''/etc/ssh/ssh_host_rsa_key'' (Raw ''PRIVATE'')
        (Some mode_0o600)
     = Inr \<lparr>root = [([''etc''], DirE), ([''etc'', ''ssh''], DirE),
                    ([''etc'', ''ssh'', ''ssh_host_rsa_key''], FileE (Raw ''PRIVATE'') mode_0o600)],
            fs_dry_run = False\<rparr>
   \<and> map_of [([''etc''], DirE), ([''etc'', ''ssh''], DirE),
              ([''etc'', ''ssh'', ''ssh_host_rsa_key''], FileE (Raw ''PRIVATE'') mode_0o600)]
        (full_path ''/etc/ssh/ssh_host_rsa_key'')
     = Some (FileE (Raw ''PRIVATE'') mode_0o600)"
proof -
  have fp: "full_path ''/etc/ssh/ssh_host_rsa_key'' = [''etc'', ''ssh'', ''ssh_host_rsa_key'']"
    by (simp add: full_path_def path_parts_def lstrip_slash_def)
  have w: "fs_write_file \<lparr>root = [], fs_dry_run = False\<rparr> ''/etc/ssh/ssh_host_rsa_key'' (Raw ''PRIVATE'')
        (Some mode_0o600)
     = Inr \<lparr>root = [([''etc''], DirE), ([''etc'', ''ssh''], DirE),
                    ([''etc'', ''ssh'', ''ssh_host_rsa_key''], FileE (Raw ''PRIVATE'') mode_0o600)],
            fs_dry_run = False\<rparr>"
    by (simp add: fs_write_file_def fp mkdir_parents_def mkdir_one_def write_bytes_def chmod_def)
  show ?thesis
    using w archive_write_file_ignores_mode[of empty_backup "''/etc/ssh/ssh_host_rsa_key''"
        "Raw ''PRIVATE''" "Some mode_0o600" None "\<lparr>root = [], fs_dry_run = False\<rparr>" mode_0o600]
    by (simp add: empty_backup_def bk_write_file_def fp)
qed

subsection \<open>Destinations on which no write raises\<close>

lemma ws_file: "writes_succeed P \<Longrightarrow> P d \<Longrightarrow> \<forall>p x m. \<exists>d'. write_file d p x m = Inr d' \<and> P d'"
  by (simp add: writes_succeed_def)

lemma ws_dir: "writes_succeed P \<Longrightarrow> P d \<Longrightarrow> \<forall>p x. \<exists>d'. write_directory d p x = Inr d' \<and> P d'"
  by (simp add: writes_succeed_def)

lemma ws_dry_run: "fs_dry_run a \<Longrightarrow> writes_succeed (\<lambda>d. d = Filesystem a)"
  by (simp add: writes_succeed_def fs_write_file_def fs_write_directory_def)

lemma ws_backup: "writes_succeed (\<lambda>d. \<exists>b. d = Backup b \<and> bk_dry_run b = dr)"
  by (auto simp: writes_succeed_def bk_write_file_def bk_write_directory_def)

lemma guarded_write_file_ws:
  assumes "writes_succeed P" "P dest"
  shows "\<exists>d'. P d' \<and>
           (case rd of
              None \<Rightarrow> (Inr a, dest)
            | Some d \<Rightarrow>
                if truthy d then
                  (case write_file dest p d m of
                     Inl e \<Rightarrow> (Inl e, dest)
                   | Inr dest' \<Rightarrow> (Inr b, dest'))
                else (Inr a, dest))
           = (Inr (if (case rd of None \<Rightarrow> False | Some d \<Rightarrow> truthy d) then b else a), d')"
proof (cases rd)
  case None
  then show ?thesis using assms(2) by simp
next
  case (Some d)
  obtain d1 where "write_file dest p d m = Inr d1" "P d1"
    using ws_file[OF assms] by blast
  then show ?thesis using Some assms(2) by (cases "truthy d") auto
qed

lemma guarded_write_directory_ws:
  assumes "writes_succeed P" "P dest"
  shows "\<exists>d'. P d' \<and>
           (case rd of
              None \<Rightarrow> (Inr a, dest)
            | Some d \<Rightarrow>
                if truthy d then
                  (case write_directory dest p d of
                     Inl e \<Rightarrow> (Inl e, dest)
                   | Inr dest' \<Rightarrow> (Inr b, dest'))
                else (Inr a, dest))
           = (Inr (if (case rd of None \<Rightarrow> False | Some d \<Rightarrow> truthy d) then b else a), d')"
proof (cases rd)
  case None
  then show ?thesis using assms(2) by simp
next
  case (Some d)
  obtain d1 where "write_directory dest p d = Inr d1" "P d1"
    using ws_dir[OF assms] by blast
  then show ?thesis using Some assms(2) by (cases "truthy d") auto
qed

lemma ssh_copy_config_ws:
  assumes "writes_succeed P" "P dest"
  shows "\<exists>d'. ssh_copy_config bp source dest = (Inr (), d') \<and> P d'"
  using guarded_write_file_ws[OF assms, where rd="read_file source (bp @ ''/sshd_config'')" and a="()" and b="()" and m=None]
  by (auto simp: ssh_copy_config_def)

lemma ssh_copy_config_d_ws:
  assumes "writes_succeed P" "P dest"
  shows "\<exists>d'. ssh_copy_config_d bp source dest = (Inr (), d') \<and> P d'"
  using guarded_write_directory_ws[OF assms, where rd="read_directory source (bp @ ''/sshd_config.d'')" and a="()" and b="()"]
  by (auto simp: ssh_copy_config_d_def)

lemma ssh_suffix_loop_ws:
  assumes "writes_succeed P"
  shows "P dest \<Longrightarrow> \<exists>d'. ssh_suffix_loop bp kt sfxs source dest = (Inr (), d') \<and> P d'"
proof (induction sfxs arbitrary: dest)
  case Nil
  then show ?case by simp
next
  case (Cons sfx rest)
  let ?kp = "bp @ ''/ssh_host_'' @ kt @ ''_key'' @ sfx"
  show ?case
  proof (cases "file_found source ?kp")
    case False
    then show ?thesis using Cons
      by (auto simp: file_found_def split: option.splits)
  next
    case True
    then obtain kd where kd: "read_file source ?kp = Some kd" "truthy kd"
      by (auto simp: file_found_def split: option.splits)
    obtain d1 where d1: "write_file dest ?kp kd (Some (if sfx = [] then mode_0o600 else mode_0o644)) = Inr d1" "P d1"
      using ws_file[OF assms Cons.prems] by blast
    from Cons.IH[OF d1(2)] kd d1 show ?thesis by simp
  qed
qed

lemma ssh_key_loop_ws:
  assumes "writes_succeed P"
  shows "P dest \<Longrightarrow> \<exists>d'. ssh_key_loop bp kts source dest = (Inr (), d') \<and> P d'"
proof (induction kts arbitrary: dest)
  case Nil
  then show ?case by simp
next
  case (Cons kt rest)
  obtain d1 where d1: "ssh_suffix_loop bp kt [[], ''.pub''] source dest = (Inr (), d1)" "P d1"
    using ssh_suffix_loop_ws[OF assms Cons.prems] by blast
  from Cons.IH[OF d1(2)] d1(1) show ?case by simp
qed

lemma handle_ssh_config_ws:
  assumes "writes_succeed P" "P dest"
  shows "\<exists>d'. handle_ssh_config c source dest = (Inr True, d') \<and> P d'"
proof -
  obtain d1 where d1: "ssh_copy_config (path c) source dest = (Inr (), d1)" "P d1"
    using ssh_copy_config_ws[OF assms] by blast
  obtain d2 where d2: "ssh_copy_config_d (path c) source d1 = (Inr (), d2)" "P d2"
    using ssh_copy_config_d_ws[OF assms(1) d1(2)] by blast
  obtain d3 where d3: "ssh_key_loop (path c) [''rsa'', ''ecdsa'', ''ed25519''] source d2 = (Inr (), d3)" "P d3"
    using ssh_key_loop_ws[OF assms(1) d2(2)] by blast
  show ?thesis using d1 d2 d3 by (simp add: handle_ssh_config_def)
qed

lemma handle_home_directories_ws:
  assumes "writes_succeed P" "P dest"
  shows "\<exists>d'. handle_home_directories c source dest = (Inr (directory_found source (path c)), d') \<and> P d'"
  using guarded_write_directory_ws[OF assms, where rd="read_directory source (path c)" and a=False and b=True and p="path c"]
  by (auto simp: handle_home_directories_def directory_found_def)

lemma standard_copy_file_ws:
  assumes "writes_succeed P" "P dest" "component_type c = ''file''"
  shows "\<exists>d'. standard_copy c source dest s =
           (Inr (if file_found source (path c) then s else if required c then False else s), d') \<and> P d'"
proof -
  define a where "a = (if required c then False else s)"
  have "standard_copy c source dest s =
          (case read_file source (path c) of
             None \<Rightarrow> (Inr a, dest)
           | Some d \<Rightarrow>
               if truthy d then
                 (case write_file dest (path c) d None of
                    Inl e \<Rightarrow> (Inl e, dest)
                  | Inr dest' \<Rightarrow> (Inr s, dest'))
               else (Inr a, dest))"
    using assms(3) unfolding standard_copy_def a_def by simp
  then show ?thesis
    using guarded_write_file_ws[OF assms(1,2), where rd="read_file source (path c)"
      and a=a and p="path c" and m=None and b=s]
    by (auto simp: file_found_def a_def)
qed

lemma standard_copy_dir_ws:
  assumes "writes_succeed P" "P dest" "component_type c = ''directory''"
  shows "\<exists>d'. standard_copy c source dest s =
           (Inr (if directory_found source (path c) then s else if required c then False else s), d') \<and> P d'"
proof -
  define a where "a = (if required c then False else s)"
  have "standard_copy c source dest s =
          (case read_directory source (path c) of
             None \<Rightarrow> (Inr a, dest)
           | Some d \<Rightarrow>
               if truthy d then
                 (case write_directory dest (path c) d of
                    Inl e \<Rightarrow> (Inl e, dest)
                  | Inr dest' \<Rightarrow> (Inr s, dest'))
               else (Inr a, dest))"
    using assms(3) unfolding standard_copy_def a_def by simp
  then show ?thesis
    using guarded_write_directory_ws[OF assms(1,2), where rd="read_directory source (path c)"
      and a=a and p="path c" and b=s]
    by (auto simp: directory_found_def a_def)
qed

lemma handle_admin_shadow_ws:
  assumes "writes_succeed P" "P dest" "path c = ''/etc/shadow''"
  shows "\<exists>d'. P d' \<and>
           ((\<not> shadow_decodes source \<and> handle_admin_shadow c source dest = (Inl UnicodeDecodeError, d')) \<or>
            (shadow_decodes source \<and>
             (\<exists>h. handle_admin_shadow c source dest = (Inr h, d') \<and> (h \<longrightarrow> file_found source (path c)))))"
proof (cases "read_file source ''/etc/shadow''")
  case None
  then show ?thesis using assms(2,3)
    by (auto simp: handle_admin_shadow_def shadow_decodes_def)
next
  case (Some sd)
  show ?thesis
  proof (cases "truthy sd")
    case False
    then show ?thesis using Some assms(2,3)
      by (auto simp: handle_admin_shadow_def shadow_decodes_def split: sum.splits)
  next
    case True
    show ?thesis
    proof (cases sd)
      case (Tar ms)
      then show ?thesis using Some True assms(2,3)
        by (auto simp: handle_admin_shadow_def shadow_decodes_def)
    next
      case (Raw bs)
      show ?thesis
      proof (cases "utf8_valid bs")
        case False
        then show ?thesis using Some True Raw assms(2,3)
          by (auto simp: handle_admin_shadow_def shadow_decodes_def decode_def)
      next
        case valid: True
        then have dec: "shadow_decodes source"
          using Some Raw by (simp add: shadow_decodes_def decode_def)
        have ff: "file_found source (path c)"
          using Some True assms(3) by (simp add: file_found_def)
        show ?thesis
        proof (cases "filter (\<lambda>line. startswith line ''admin:'') (splitlines bs)")
          case Nil
          then show ?thesis using Some True Raw valid dec assms(2,3)
            by (auto simp: handle_admin_shadow_def decode_def)
        next
          case (Cons l ls)
          obtain d1 where "write_file dest ''meta/shadow.admin'' (Raw (encode l)) None = Inr d1" "P d1"
            using ws_file[OF assms(1,2)] by blast
          then show ?thesis using Some True Raw Cons valid dec ff assms(3)
            by (auto simp: handle_admin_shadow_def decode_def)
        qed
      qed
    qed
  qed
qed

lemma handle_admin_shadow_found:
  assumes "handle_admin_shadow c source dest = (Inr True, d')"
  shows "file_found source (path c)"
  using assms
  by (auto simp: handle_admin_shadow_def file_found_def split: option.splits if_splits sum.splits list.splits)

lemma handle_admin_shadow_decodes:
  assumes "path c = ''/etc/shadow''" "handle_admin_shadow c source dest = (Inr h, d')"
  shows "shadow_decodes source"
  using assms
  by (auto simp: handle_admin_shadow_def shadow_decodes_def split: option.splits if_splits sum.splits list.splits)

lemma handle_admin_shadow_undecodable:
  assumes "path c = ''/etc/shadow''" "\<not> shadow_decodes source"
  shows "handle_admin_shadow c source dest = (Inl UnicodeDecodeError, dest)"
proof -
  from assms obtain d e where d: "read_file source ''/etc/shadow'' = Some d" "truthy d" "payload_decode d = Inl e"
    by (auto simp: shadow_decodes_def split: option.splits sum.splits)
  have "e = UnicodeDecodeError" using d(3) by (cases d) (auto simp: decode_def split: if_splits)
  then show ?thesis using d assms(1) by (simp add: handle_admin_shadow_def)
qed

lemma copy_component_registry_ws:
  assumes ws: "writes_succeed P" and P: "P dest" and c: "c \<in> set SONIC_STATE_COMPONENTS"
  shows "\<exists>d'. P d' \<and>
           (copy_component c source dest s = (Inr (s \<and> copy_finds source c), d') \<or>
            (\<not> shadow_decodes source \<and> copy_component c source dest s = (Inl UnicodeDecodeError, d')))"
proof -
  consider "c = sonic_config" | "c = user_data" | "c = ssh_infrastructure"
    | "c = system_mounts" | "c = fan_control" | "c = admin_auth"
    using c by (auto simp: SONIC_STATE_COMPONENTS_def)
  then show ?thesis
  proof cases
    case 1
    then show ?thesis
      using standard_copy_file_ws[OF ws P, of c source s]
      by (auto simp: copy_component_def has_special_handler_def copy_finds_def sonic_config_def)
  next
    case 2
    obtain d1 where d1: "handle_home_directories c source dest = (Inr (directory_found source (path c)), d1)" "P d1"
      using handle_home_directories_ws[OF ws P] by blast
    show ?thesis
    proof (cases "directory_found source (path c)")
      case True
      then show ?thesis using 2 d1
        by (auto simp: copy_component_def has_special_handler_def copy_finds_def user_data_def
            handle_special_component_def)
    next
      case False
      then show ?thesis using 2 d1 standard_copy_dir_ws[OF ws d1(2), of c source s]
        by (auto simp: copy_component_def has_special_handler_def copy_finds_def user_data_def
            handle_special_component_def)
    qed
  next
    case 3
    obtain d1 where d1: "handle_ssh_config c source dest = (Inr True, d1)" "P d1"
      using handle_ssh_config_ws[OF ws P] by blast
    then show ?thesis using 3
      by (auto simp: copy_component_def has_special_handler_def copy_finds_def ssh_infrastructure_def
          handle_special_component_def)
  next
    case 4
    then show ?thesis
      using standard_copy_file_ws[OF ws P, of c source s]
      by (auto simp: copy_component_def has_special_handler_def copy_finds_def system_mounts_def)
  next
    case 5
    then show ?thesis
      using standard_copy_file_ws[OF ws P, of c source s]
      by (auto simp: copy_component_def has_special_handler_def copy_finds_def fan_control_def)
  next
    case 6
    then have pc: "path c = ''/etc/shadow''" and ct: "component_type c = ''file''"
      and rq: "required c" and sh: "special_handler c = Some ''admin_shadow''"
      by (simp_all add: admin_auth_def)
    have cc: "copy_component c source dest s =
        (case handle_admin_shadow c source dest of
           (Inl e, dest') \<Rightarrow> (Inl e, dest')
         | (Inr handled, dest') \<Rightarrow>
             if handled then (Inr s, dest') else standard_copy c source dest' s)"
      using sh by (simp add: copy_component_def has_special_handler_def handle_special_component_def)
    have cf: "copy_finds source c = file_found source (path c)"
      using ct rq sh by (simp add: copy_finds_def)
    obtain d1 where d1: "P d1"
      "(\<not> shadow_decodes source \<and> handle_admin_shadow c source dest = (Inl UnicodeDecodeError, d1)) \<or>
       (shadow_decodes source \<and>
        (\<exists>h. handle_admin_shadow c source dest = (Inr h, d1) \<and> (h \<longrightarrow> file_found source (path c))))"
      using handle_admin_shadow_ws[OF ws P pc] by blast
    from d1(2) show ?thesis
    proof
      assume "\<not> shadow_decodes source \<and> handle_admin_shadow c source dest = (Inl UnicodeDecodeError, d1)"
      then show ?thesis using d1(1) cc by auto
    next
      assume "shadow_decodes source \<and>
        (\<exists>h. handle_admin_shadow c source dest = (Inr h, d1) \<and> (h \<longrightarrow> file_found source (path c)))"
      then obtain h where h: "handle_admin_shadow c source dest = (Inr h, d1)"
        "h \<longrightarrow> file_found source (path c)" by blast
      show ?thesis
      proof (cases h)
        case True
        then show ?thesis using d1(1) h cc cf by auto
      next
        case False
        then show ?thesis using h cc cf standard_copy_file_ws[OF ws d1(1) ct, of source s] rq
          by auto
      qed
    qed
  qed
qed

lemma copy_loop_registry_ws:
  assumes ws: "writes_succeed P"
  shows "P dest \<Longrightarrow> set cs \<subseteq> set SONIC_STATE_COMPONENTS \<Longrightarrow>
         \<exists>d'. P d' \<and>
           (copy_loop cs source dest s = (Inr (s \<and> (\<forall>c\<in>set cs. copy_finds source c)), d') \<or>
            (\<not> shadow_decodes source \<and> copy_loop cs source dest s = (Inl UnicodeDecodeError, d')))"
proof (induction cs arbitrary: dest s)
  case Nil
  then show ?case by simp
next
  case (Cons c cs)
  from Cons.prems have c: "c \<in> set SONIC_STATE_COMPONENTS" and cs: "set cs \<subseteq> set SONIC_STATE_COMPONENTS"
    by auto
  obtain d1 where d1: "P d1"
    "copy_component c source dest s = (Inr (s \<and> copy_finds source c), d1) \<or>
     (\<not> shadow_decodes source \<and> copy_component c source dest s = (Inl UnicodeDecodeError, d1))"
    using copy_component_registry_ws[OF ws Cons.prems(1) c] by blast
  from d1(2) show ?case
  proof
    assume ok: "copy_component c source dest s = (Inr (s \<and> copy_finds source c), d1)"
    from Cons.IH[OF d1(1) cs, of "s \<and> copy_finds source c"] ok show ?thesis
      by (auto simp: conj_assoc)
  next
    assume "\<not> shadow_decodes source \<and> copy_component c source dest s = (Inl UnicodeDecodeError, d1)"
    then show ?thesis using d1(1) by auto
  qed
qed

subsection \<open>What the loops return\<close>

lemma standard_copy_Inr:
  assumes "standard_copy c source dest s = (Inr r, d')"
    and "component_type c = ''file'' \<or> component_type c = ''directory''"
  shows "r = (s \<and> (\<not> required c \<or>
               (if component_type c = ''file'' then file_found source (path c)
                else directory_found source (path c))))"
  using assms
  by (auto simp: standard_copy_def file_found_def directory_found_def
      split: option.splits if_splits sum.splits)

lemma ssh_handler_Inr:
  "handle_ssh_config c source dest = (Inr h, d') \<Longrightarrow> h"
  by (auto simp: handle_ssh_config_def Let_def split: prod.splits sum.splits)

lemma home_handler_Inr:
  "handle_home_directories c source dest = (Inr h, d') \<Longrightarrow> h = directory_found source (path c)"
  by (auto simp: handle_home_directories_def directory_found_def split: option.splits if_splits sum.splits)

lemma copy_component_registry_Inr:
  assumes c: "c \<in> set SONIC_STATE_COMPONENTS"
    and r: "copy_component c source dest s = (Inr r, d')"
  shows "r = (s \<and> copy_finds source c)"
proof -
  consider "c = sonic_config" | "c = user_data" | "c = ssh_infrastructure"
    | "c = system_mounts" | "c = fan_control" | "c = admin_auth"
    using c by (auto simp: SONIC_STATE_COMPONENTS_def)
  then show ?thesis
  proof cases
    case 1
    then show ?thesis using r standard_copy_Inr[of c source dest s r d']
      by (auto simp: copy_component_def has_special_handler_def copy_finds_def sonic_config_def)
  next
    case 2
    then have ct: "component_type c = ''directory''" and rq: "required c"
      and sh: "special_handler c = Some ''home_directories''"
      by (simp_all add: user_data_def)
    have cc: "copy_component c source dest s =
        (case handle_home_directories c source dest of
           (Inl e, dest') \<Rightarrow> (Inl e, dest')
         | (Inr handled, dest') \<Rightarrow>
             if handled then (Inr s, dest') else standard_copy c source dest' s)"
      using sh by (simp add: copy_component_def has_special_handler_def handle_special_component_def)
    have cf: "copy_finds source c = directory_found source (path c)"
      using ct rq sh by (simp add: copy_finds_def)
    obtain x d1 where h: "handle_home_directories c source dest = (x, d1)" by force
    show ?thesis
    proof (cases x)
      case (Inl e)
      then show ?thesis using r cc h by simp
    next
      case (Inr hv)
      then have hv: "hv = directory_found source (path c)" using h home_handler_Inr by blast
      show ?thesis
      proof (cases hv)
        case True
        then show ?thesis using r cc h Inr hv cf by simp
      next
        case False
        then have "standard_copy c source d1 s = (Inr r, d')" using r cc h Inr by simp
        from standard_copy_Inr[OF this] ct rq show ?thesis using cf by simp
      qed
    qed
  next
    case 3
    then have sh: "special_handler c = Some ''ssh_config''"
      by (simp add: ssh_infrastructure_def)
    have cc: "copy_component c source dest s =
        (case handle_ssh_config c source dest of
           (Inl e, dest') \<Rightarrow> (Inl e, dest')
         | (Inr handled, dest') \<Rightarrow>
             if handled then (Inr s, dest') else standard_copy c source dest' s)"
      using sh by (simp add: copy_component_def has_special_handler_def handle_special_component_def)
    have cf: "copy_finds source c"
      using sh by (simp add: copy_finds_def)
    obtain x d1 where h: "handle_ssh_config c source dest = (x, d1)" by force
    show ?thesis
    proof (cases x)
      case (Inl e)
      then show ?thesis using r cc h by simp
    next
      case (Inr hv)
      then have "hv" using h ssh_handler_Inr by blast
      then show ?thesis using r cc h Inr cf by simp
    qed
  next
    case 4
    then show ?thesis using r standard_copy_Inr[of c source dest s r d']
      by (auto simp: copy_component_def has_special_handler_def copy_finds_def system_mounts_def)
  next
    case 5
    then show ?thesis using r standard_copy_Inr[of c source dest s r d']
      by (auto simp: copy_component_def has_special_handler_def copy_finds_def fan_control_def)
  next
    case 6
    then have ct: "component_type c = ''file''" and rq: "required c"
      and sh: "special_handler c = Some ''admin_shadow''"
      by (simp_all add: admin_auth_def)
    have cc: "copy_component c source dest s =
        (case handle_admin_shadow c source dest of
           (Inl e, dest') \<Rightarrow> (Inl e, dest')
         | (Inr handled, dest') \<Rightarrow>
             if handled then (Inr s, dest') else standard_copy c source dest' s)"
      using sh by (simp add: copy_component_def has_special_handler_def handle_special_component_def)
    have cf: "copy_finds source c = file_found source (path c)"
      using ct rq sh by (simp add: copy_finds_def)
    obtain x d1 where h: "handle_admin_shadow c source dest = (x, d1)" by force
    show ?thesis
    proof (cases x)
      case (Inl e)
      then show ?thesis using r cc h by simp
    next
      case (Inr hv)
      show ?thesis
      proof (cases hv)
        case True
        then have "file_found source (path c)" using h Inr handle_admin_shadow_found by auto
        then show ?thesis using r cc h Inr True cf by simp
      next
        case False
        then have "standard_copy c source d1 s = (Inr r, d')" using r cc h Inr by simp
        from standard_copy_Inr[OF this] ct rq show ?thesis using cf by simp
      qed
    qed
  qed
qed

lemma copy_loop_registry_Inr:
  "set cs \<subseteq> set SONIC_STATE_COMPONENTS \<Longrightarrow> copy_loop cs source dest s = (Inr b, d') \<Longrightarrow>
     b = (s \<and> (\<forall>c\<in>set cs. copy_finds source c))"
proof (induction cs arbitrary: dest s)
  case Nil
  then show ?case by simp
next
  case (Cons c cs)
  from Cons.prems(2) obtain s1 d1 where
    s1: "copy_component c source dest s = (Inr s1, d1)" and
    rest: "copy_loop cs source d1 s1 = (Inr b, d')"
    by (auto split: prod.splits sum.splits)
  have "s1 = (s \<and> copy_finds source c)"
    using copy_component_registry_Inr[OF _ s1] Cons.prems(1) by simp
  moreover have "b = (s1 \<and> (\<forall>c\<in>set cs. copy_finds source c))"
    using Cons.IH[OF _ rest] Cons.prems(1) by simp
  ultimately show ?case by auto
qed

lemma registry_types:
  "c \<in> set SONIC_STATE_COMPONENTS \<Longrightarrow> component_type c = ''file'' \<or> component_type c = ''directory''"
  by (auto simp: registry_defs)

lemma restore_component_registry_Inr:
  assumes c: "c \<in> set SONIC_STATE_COMPONENTS"
    and r: "restore_component c backup target s = (Inr r, d')"
  shows "r = (s \<and> restore_finds backup c)"
proof (cases "special_handler c = Some ''admin_shadow''")
  case True
  then show ?thesis using r by (simp add: restore_component_def restore_finds_def)
next
  case False
  then have "standard_copy c backup target s = (Inr r, d')" using r by (simp add: restore_component_def)
  from standard_copy_Inr[OF this registry_types[OF c]] False show ?thesis
    by (simp add: restore_finds_def)
qed

lemma restore_loop_registry_Inr:
  "set cs \<subseteq> set SONIC_STATE_COMPONENTS \<Longrightarrow> restore_loop cs backup target s = (Inr b, d') \<Longrightarrow>
     b = (s \<and> (\<forall>c\<in>set cs. restore_finds backup c))"
proof (induction cs arbitrary: target s)
  case Nil
  then show ?case by simp
next
  case (Cons c cs)
  from Cons.prems(2) obtain s1 d1 where
    s1: "restore_component c backup target s = (Inr s1, d1)" and
    rest: "restore_loop cs backup d1 s1 = (Inr b, d')"
    by (auto split: prod.splits sum.splits)
  have "s1 = (s \<and> restore_finds backup c)"
    using restore_component_registry_Inr[OF _ s1] Cons.prems(1) by simp
  moreover have "b = (s1 \<and> (\<forall>c\<in>set cs. restore_finds backup c))"
    using Cons.IH[OF _ rest] Cons.prems(1) by simp
  ultimately show ?case by auto
qed

lemma restore_component_registry_ws:
  assumes ws: "writes_succeed P" and P: "P target" and c: "c \<in> set SONIC_STATE_COMPONENTS"
  shows "\<exists>d'. P d' \<and> restore_component c backup target s = (Inr (s \<and> restore_finds backup c), d')"
proof (cases "special_handler c = Some ''admin_shadow''")
  case True
  then show ?thesis using P by (auto simp: restore_component_def restore_finds_def)
next
  case False
  from registry_types[OF c] show ?thesis
  proof
    assume ct: "component_type c = ''file''"
    from standard_copy_file_ws[OF ws P ct, of backup s] False ct show ?thesis
      by (auto simp: restore_component_def restore_finds_def)
  next
    assume ct: "component_type c = ''directory''"
    from standard_copy_dir_ws[OF ws P ct, of backup s] False ct show ?thesis
      by (auto simp: restore_component_def restore_finds_def)
  qed
qed

lemma restore_loop_registry_ws:
  assumes ws: "writes_succeed P"
  shows "P target \<Longrightarrow> set cs \<subseteq> set SONIC_STATE_COMPONENTS \<Longrightarrow>
         \<exists>d'. P d' \<and>
           restore_loop cs backup target s = (Inr (s \<and> (\<forall>c\<in>set cs. restore_finds backup c)), d')"
proof (induction cs arbitrary: target s)
  case Nil
  then show ?case by simp
next
  case (Cons c cs)
  from Cons.prems have c: "c \<in> set SONIC_STATE_COMPONENTS" and cs: "set cs \<subseteq> set SONIC_STATE_COMPONENTS"
    by auto
  obtain d1 where d1: "P d1"
    "restore_component c backup target s = (Inr (s \<and> restore_finds backup c), d1)"
    using restore_component_registry_ws[OF ws Cons.prems(1) c] by blast
  from Cons.IH[OF d1(1) cs, of "s \<and> restore_finds backup c"] d1(2) show ?case
    by (auto simp: conj_assoc)
qed

lemma copy_loop_Inr_decodes:
  assumes "admin_auth \<in> set cs" "set cs \<subseteq> set SONIC_STATE_COMPONENTS"
    "copy_loop cs source dest s = (Inr b, d')"
  shows "shadow_decodes source"
  using assms
proof (induction cs arbitrary: dest s)
  case Nil
  then show ?case by simp
next
  case (Cons c cs)
  from Cons.prems(3) obtain s1 d1 where
    s1: "copy_component c source dest s = (Inr s1, d1)" and
    rest: "copy_loop cs source d1 s1 = (Inr b, d')"
    by (auto split: prod.splits sum.splits)
  show ?case
  proof (cases "c = admin_auth")
    case True
    then have sh: "special_handler c = Some ''admin_shadow''" and pc: "path c = ''/etc/shadow''"
      by (simp_all add: admin_auth_def)
    have cc: "copy_component c source dest s =
        (case handle_admin_shadow c source dest of
           (Inl e, dest') \<Rightarrow> (Inl e, dest')
         | (Inr handled, dest') \<Rightarrow>
             if handled then (Inr s, dest') else standard_copy c source dest' s)"
      using sh by (simp add: copy_component_def has_special_handler_def handle_special_component_def)
    obtain x d2 where h: "handle_admin_shadow c source dest = (x, d2)" by force
    then obtain hv where "x = Inr hv" using s1 cc by (cases x) auto
    then show ?thesis using handle_admin_shadow_decodes[OF pc] h by blast
  next
    case False
    then show ?thesis using Cons.IH[OF _ _ rest] Cons.prems(1,2) by auto
  qed
qed

lemma copy_loop_registry_decodes:
  "copy_loop SONIC_STATE_COMPONENTS source dest s = (Inr b, d') \<Longrightarrow> shadow_decodes source"
  using copy_loop_Inr_decodes[of SONIC_STATE_COMPONENTS source dest s b d']
  by (simp add: SONIC_STATE_COMPONENTS_def)

lemma BackupAdapter_init_write:
  "BackupAdapter_init disk ''w'' dry_run =
     \<lparr>bk_mode = ''w'', bk_dry_run = dry_run, bk_data = [], bk_metadata = None\<rparr>"
  by (cases disk) (simp_all add: BackupAdapter_init_def)

lemma backup_state_outcome:
  "\<exists>entries. backup_state dry_run ev t disk =
     (if \<not> shadow_decodes (Filesystem \<lparr>root = t, fs_dry_run = dry_run\<rparr>)
        then (Inl UnicodeDecodeError, t, disk, entries)
      else if dry_run
        then (Inr (\<forall>c\<in>set SONIC_STATE_COMPONENTS.
                     copy_finds (Filesystem \<lparr>root = t, fs_dry_run = dry_run\<rparr>) c), t, disk, entries)
      else (Inl AttributeError, t, Some EmptyGzip, entries))"
proof -
  let ?src = "Filesystem \<lparr>root = t, fs_dry_run = dry_run\<rparr>"
  let ?bk = "\<lparr>bk_mode = ''w'', bk_dry_run = dry_run, bk_data = [], bk_metadata = None\<rparr>"
  let ?P = "\<lambda>d. \<exists>b. d = Backup b \<and> bk_dry_run b = dry_run"
  have "?P (Backup ?bk)" by simp
  from copy_loop_registry_ws[OF ws_backup this subset_refl, of ?src True]
  obtain b where b: "bk_dry_run b = dry_run"
    and loop: "copy_loop SONIC_STATE_COMPONENTS ?src (Backup ?bk) True =
                 (Inr (\<forall>c\<in>set SONIC_STATE_COMPONENTS. copy_finds ?src c), Backup b) \<or>
               (\<not> shadow_decodes ?src \<and>
                copy_loop SONIC_STATE_COMPONENTS ?src (Backup ?bk) True = (Inl UnicodeDecodeError, Backup b))"
    by auto
  from loop show ?thesis
  proof
    assume ok: "copy_loop SONIC_STATE_COMPONENTS ?src (Backup ?bk) True =
                 (Inr (\<forall>c\<in>set SONIC_STATE_COMPONENTS. copy_finds ?src c), Backup b)"
    have dec: "shadow_decodes ?src"
      by (rule copy_loop_registry_decodes[OF ok])
    show ?thesis
      using ok dec b
      by (cases dry_run) (simp_all add: backup_state_def BackupAdapter_init_write save_backup_def)
  next
    assume "\<not> shadow_decodes ?src \<and>
                copy_loop SONIC_STATE_COMPONENTS ?src (Backup ?bk) True = (Inl UnicodeDecodeError, Backup b)"
    then show ?thesis
      by (simp add: backup_state_def BackupAdapter_init_write)
  qed
qed

subsection \<open>Dry run, and the archive that is never written\<close>

lemma migrate_state_dry_run:
  "migrate_state True s t =
     (if shadow_decodes (Filesystem \<lparr>root = s, fs_dry_run = True\<rparr>)
        then Inr (\<forall>c\<in>set SONIC_STATE_COMPONENTS. copy_finds (Filesystem \<lparr>root = s, fs_dry_run = True\<rparr>) c)
      else Inl UnicodeDecodeError, s, t)"
proof -
  let ?src = "Filesystem \<lparr>root = s, fs_dry_run = True\<rparr>"
  let ?tgt = "\<lparr>root = t, fs_dry_run = True\<rparr>"
  have ws: "writes_succeed (\<lambda>d. d = Filesystem ?tgt)" by (rule ws_dry_run) simp
  from copy_loop_registry_ws[OF ws refl subset_refl, of ?src True]
  have loop: "copy_loop SONIC_STATE_COMPONENTS ?src (Filesystem ?tgt) True =
                 (Inr (\<forall>c\<in>set SONIC_STATE_COMPONENTS. copy_finds ?src c), Filesystem ?tgt) \<or>
               (\<not> shadow_decodes ?src \<and>
                copy_loop SONIC_STATE_COMPONENTS ?src (Filesystem ?tgt) True
                  = (Inl UnicodeDecodeError, Filesystem ?tgt))"
    by auto
  then show ?thesis
  proof
    assume ok: "copy_loop SONIC_STATE_COMPONENTS ?src (Filesystem ?tgt) True =
                 (Inr (\<forall>c\<in>set SONIC_STATE_COMPONENTS. copy_finds ?src c), Filesystem ?tgt)"
    have "shadow_decodes ?src" by (rule copy_loop_registry_decodes[OF ok])
    then show ?thesis using ok by (simp add: migrate_state_def)
  next
    assume "\<not> shadow_decodes ?src \<and>
                copy_loop SONIC_STATE_COMPONENTS ?src (Filesystem ?tgt) True
                  = (Inl UnicodeDecodeError, Filesystem ?tgt)"
    then show ?thesis by (simp add: migrate_state_def)
  qed
qed

lemma restore_state_dry_run:
  "restore_state True disk t =
     (Inr (\<forall>c\<in>set SONIC_STATE_COMPONENTS.
             restore_finds (Backup (BackupAdapter_init disk ''r'' True)) c), disk, t)"
proof -
  let ?tgt = "\<lparr>root = t, fs_dry_run = True\<rparr>"
  have ws: "writes_succeed (\<lambda>d. d = Filesystem ?tgt)" by (rule ws_dry_run) simp
  from restore_loop_registry_ws[OF ws refl subset_refl,
      of "Backup (BackupAdapter_init disk ''r'' True)" True]
  show ?thesis by (auto simp: restore_state_def)
qed

text \<open>
  C4.  With \<open>dry_run\<close> set, every operation leaves the storage it works on as it found it,
  whatever it returns or raises: \<open>backup_state\<close> the source root and the archive file,
  \<open>restore_state\<close> the archive file and the target root, \<open>migrate_state\<close> both roots,
  \<open>validate_state\<close> the root.  The writes are no-ops: \<open>write_file\<close> and \<open>write_directory\<close>
  of a dry-run filesystem adapter return the adapter unchanged and \<open>save_backup\<close> of a
  dry-run archive adapter leaves the archive path alone.  The reads are still made: the
  operations return what the reads decide.
\<close>

theorem dry_run_changes_nothing:
  "fst (snd (backup_state True ev s disk)) = s
   \<and> fst (snd (snd (backup_state True ev s disk))) = disk
   \<and> snd (restore_state True disk t) = (disk, t)
   \<and> snd (migrate_state True s t) = (s, t)
   \<and> snd (validate_state True s) = s
   \<and> (fs_dry_run a \<longrightarrow> fs_write_file a p d m = Inr a \<and> fs_write_directory a p d = Inr a)
   \<and> (bk_dry_run b \<longrightarrow> save_backup ev b disk = (None, disk))
   \<and> fst (validate_state True s) = fst (validate_state False s)
   \<and> fst (restore_state True disk t)
       = Inr (\<forall>c\<in>set SONIC_STATE_COMPONENTS. restore_finds (Backup (BackupAdapter_init disk ''r'' True)) c)
   \<and> (shadow_decodes (Filesystem \<lparr>root = s, fs_dry_run = True\<rparr>) \<longrightarrow>
        fst (migrate_state True s t)
          = Inr (\<forall>c\<in>set SONIC_STATE_COMPONENTS. copy_finds (Filesystem \<lparr>root = s, fs_dry_run = True\<rparr>) c)
        \<and> fst (backup_state True ev s disk)
          = Inr (\<forall>c\<in>set SONIC_STATE_COMPONENTS. copy_finds (Filesystem \<lparr>root = s, fs_dry_run = True\<rparr>) c))"
proof -
  from backup_state_outcome[of True ev s disk] obtain entries where
    "backup_state True ev s disk =
     (if \<not> shadow_decodes (Filesystem \<lparr>root = s, fs_dry_run = True\<rparr>)
        then (Inl UnicodeDecodeError, s, disk, entries)
      else if True
        then (Inr (\<forall>c\<in>set SONIC_STATE_COMPONENTS.
                     copy_finds (Filesystem \<lparr>root = s, fs_dry_run = True\<rparr>) c), s, disk, entries)
      else (Inl AttributeError, s, Some EmptyGzip, entries))"
    by blast
  then have bs: "backup_state True ev s disk =
     (if \<not> shadow_decodes (Filesystem \<lparr>root = s, fs_dry_run = True\<rparr>)
        then (Inl UnicodeDecodeError, s, disk, entries)
      else (Inr (\<forall>c\<in>set SONIC_STATE_COMPONENTS.
                     copy_finds (Filesystem \<lparr>root = s, fs_dry_run = True\<rparr>) c), s, disk, entries))"
    by simp
  have v: "fst (validate_state True s) = fst (validate_state False s)"
    by (simp add: validate_state_def validate_loop_conj fs_exists_def)
  show ?thesis
    using bs v
    by (simp add: restore_state_dry_run migrate_state_dry_run validate_state_def
        fs_write_file_def fs_write_directory_def save_backup_def)
qed

theorem dry_run_changes_nothing_witness:
  "snd (migrate_state True populated_root []) = (populated_root, [])
   \<and> snd (restore_state True (Some EmptyGzip) populated_root) = (Some EmptyGzip, populated_root)
   \<and> fst (snd (backup_state True example_env populated_root None)) = populated_root
   \<and> fst (snd (snd (backup_state True example_env populated_root None))) = None
   \<and> fs_write_file \<lparr>root = [], fs_dry_run = True\<rparr> ''/etc/fstab'' (Raw ''x'') None
       = Inr \<lparr>root = [], fs_dry_run = True\<rparr>
   \<and> save_backup example_env (empty_backup\<lparr>bk_dry_run := True\<rparr>) None = (None, None)"
  using dry_run_changes_nothing[of example_env populated_root None "[]"
      "\<lparr>root = [], fs_dry_run = True\<rparr>" "''/etc/fstab''" "Raw ''x''" None
      "empty_backup\<lparr>bk_dry_run := True\<rparr>"]
    dry_run_changes_nothing[of example_env populated_root "Some EmptyGzip" populated_root]
  by (simp add: empty_backup_def)

text \<open>
  C3.  Without dry-run, \<open>backup_state\<close> never returns a boolean.  When the loop over the
  components ends, \<open>save_backup\<close> opens the archive file for writing and then raises
  \<open>AttributeError\<close> at \<open>tempfile.BytesIO\<close>: the file is left an empty gzip stream, with no
  manifest and no entry.  (When the credential file is not UTF-8 text, the loop raises
  before that and the archive path is not touched.)
\<close>

theorem backup_state_never_returns:
  "(fst (backup_state False ev t disk) = Inl AttributeError
     \<and> fst (snd (snd (backup_state False ev t disk))) = Some EmptyGzip)
   \<or> (fst (backup_state False ev t disk) = Inl UnicodeDecodeError
     \<and> fst (snd (snd (backup_state False ev t disk))) = disk)"
  using backup_state_outcome[of False ev t disk]
  by (cases "shadow_decodes (Filesystem \<lparr>root = t, fs_dry_run = False\<rparr>)") auto

theorem backup_state_never_returns_witness:
  "fst (backup_state False example_env root_without_fstab None) = Inl AttributeError
   \<and> fst (snd (snd (backup_state False example_env root_without_fstab None))) = Some EmptyGzip"
proof -
  have "map_of root_without_fstab (full_path ''/etc/shadow'')
          = Some (FileE (Raw ''root:*:1\<newline>admin:$6$x:2\<newline>'') 416)"
    by (simp add: root_without_fstab_def populated_root_def full_path_registry)
  then have "shadow_decodes (Filesystem \<lparr>root = root_without_fstab, fs_dry_run = False\<rparr>)"
    by (simp add: shadow_decodes_def fs_read_file_def tree_exists_def decode_def byte_in_def)
  then show ?thesis
    using backup_state_never_returns[of example_env root_without_fstab None]
      backup_state_outcome[of False example_env root_without_fstab None]
    by auto
qed

text \<open>
  C1.  The round trip at a root populated with every component.  \<open>backup_state\<close> collects
  the entries and then raises \<open>AttributeError\<close> in \<open>save_backup\<close>, leaving an empty gzip
  stream at the archive path; \<open>restore_state\<close> from that path finds no entry, returns
  false and writes nothing.  And from the archive that \<open>save_backup\<close> describes,
  \<open>restore_state\<close> still returns false and restores no file of the SSH bundle: the
  bundle is stored under the paths of its files, and \<open>restore_state\<close> asks for the one
  entry \<open>/etc/ssh\<close>.
\<close>

theorem round_trip_fails:
  "backup_state False example_env populated_root None
     = (Inl AttributeError, populated_root, Some EmptyGzip, populated_entries)
   \<and> restore_state False (Some EmptyGzip) [] = (Inr False, Some EmptyGzip, [])
   \<and> fst (restore_state False
             (Some (archive_described example_env (empty_backup\<lparr>bk_data := populated_entries\<rparr>))) [])
       = Inr False
   \<and> map_of (snd (snd (restore_state False
             (Some (archive_described example_env (empty_backup\<lparr>bk_data := populated_entries\<rparr>))) [])))
         [''etc'', ''ssh'', ''sshd_config'']
       = None
   \<and> map_of populated_root [''etc'', ''ssh'', ''sshd_config''] = Some (FileE (Raw ''Port 22'') 420)"
  by code_simp

subsection \<open>The boolean that the operations return\<close>

lemma copy_finds_registry:
  "(\<forall>c\<in>set SONIC_STATE_COMPONENTS. copy_finds source c) =
     (file_found source ''/etc/sonic/config_db.json'' \<and> directory_found source ''/home''
      \<and> file_found source ''/etc/fstab'' \<and> file_found source ''/etc/shadow'')"
  by (simp add: registry_defs copy_finds_def)

lemma restore_finds_registry:
  "(\<forall>c\<in>set SONIC_STATE_COMPONENTS. restore_finds backup c) =
     (file_found backup ''/etc/sonic/config_db.json'' \<and> directory_found backup ''/home''
      \<and> directory_found backup ''/etc/ssh'' \<and> file_found backup ''/etc/fstab'')"
  by (simp add: registry_defs restore_finds_def)

lemma migrate_state_Inr:
  assumes "fst (migrate_state dry_run s t) = Inr b"
  shows "b = (\<forall>c\<in>set SONIC_STATE_COMPONENTS. copy_finds (Filesystem \<lparr>root = s, fs_dry_run = dry_run\<rparr>) c)"
proof -
  obtain r d where l: "copy_loop SONIC_STATE_COMPONENTS (Filesystem \<lparr>root = s, fs_dry_run = dry_run\<rparr>)
      (Filesystem \<lparr>root = t, fs_dry_run = dry_run\<rparr>) True = (r, d)" by force
  then have "r = Inr b" using assms by (simp add: migrate_state_def)
  from copy_loop_registry_Inr[OF subset_refl l[unfolded this]] show ?thesis by simp
qed

lemma restore_state_Inr:
  assumes "fst (restore_state dry_run disk t) = Inr b"
  shows "b = (\<forall>c\<in>set SONIC_STATE_COMPONENTS.
                restore_finds (Backup (BackupAdapter_init disk ''r'' dry_run)) c)"
proof -
  obtain r d where l: "restore_loop SONIC_STATE_COMPONENTS (Backup (BackupAdapter_init disk ''r'' dry_run))
      (Filesystem \<lparr>root = t, fs_dry_run = dry_run\<rparr>) True = (r, d)" by force
  then have "r = Inr b" using assms by (simp add: restore_state_def)
  from restore_loop_registry_Inr[OF subset_refl l[unfolded this]] show ?thesis by simp
qed

lemma backup_state_Inr:
  assumes "fst (backup_state dry_run ev s disk) = Inr b"
  shows "b = (\<forall>c\<in>set SONIC_STATE_COMPONENTS. copy_finds (Filesystem \<lparr>root = s, fs_dry_run = dry_run\<rparr>) c)"
  using assms backup_state_outcome[of dry_run ev s disk]
  by (cases "shadow_decodes (Filesystem \<lparr>root = s, fs_dry_run = dry_run\<rparr>)"; cases dry_run) auto

text \<open>
  C2, as the code has it.  \<open>validate_state\<close> returns true exactly when the path of every
  required component exists.  The other three operations, when they return a boolean,
  return true exactly when the reads that their loops count find data that is not
  empty: for \<open>backup_state\<close> and \<open>migrate_state\<close> the files \<open>config_db.json\<close>, \<open>fstab\<close> and
  \<open>shadow\<close> and the directory \<open>/home\<close> of the source (the SSH component is never counted
  as missing); for \<open>restore_state\<close> the entries \<open>config_db.json\<close>, \<open>/home\<close>, \<open>/etc/ssh\<close> and
  \<open>fstab\<close> of the archive (the credential component is never counted as missing).  In a
  dry run \<open>restore_state\<close> always returns that boolean, and \<open>backup_state\<close> and
  \<open>migrate_state\<close> do whenever the credential file is UTF-8 text.
\<close>

theorem operation_results:
  "fst (validate_state dry_run s)
     = (\<forall>c\<in>set SONIC_STATE_COMPONENTS. required c \<longrightarrow> fs_exists \<lparr>root = s, fs_dry_run = dry_run\<rparr> (path c))
   \<and> (\<forall>b. fst (backup_state dry_run ev s disk) = Inr b \<or> fst (migrate_state dry_run s t) = Inr b \<longrightarrow>
         b = (file_found (Filesystem \<lparr>root = s, fs_dry_run = dry_run\<rparr>) ''/etc/sonic/config_db.json''
              \<and> directory_found (Filesystem \<lparr>root = s, fs_dry_run = dry_run\<rparr>) ''/home''
              \<and> file_found (Filesystem \<lparr>root = s, fs_dry_run = dry_run\<rparr>) ''/etc/fstab''
              \<and> file_found (Filesystem \<lparr>root = s, fs_dry_run = dry_run\<rparr>) ''/etc/shadow''))
   \<and> (\<forall>b. fst (restore_state dry_run disk t) = Inr b \<longrightarrow>
         b = (file_found (Backup (BackupAdapter_init disk ''r'' dry_run)) ''/etc/sonic/config_db.json''
              \<and> directory_found (Backup (BackupAdapter_init disk ''r'' dry_run)) ''/home''
              \<and> directory_found (Backup (BackupAdapter_init disk ''r'' dry_run)) ''/etc/ssh''
              \<and> file_found (Backup (BackupAdapter_init disk ''r'' dry_run)) ''/etc/fstab''))
   \<and> (\<exists>b. fst (restore_state True disk t) = Inr b)
   \<and> (shadow_decodes (Filesystem \<lparr>root = s, fs_dry_run = True\<rparr>) \<longrightarrow>
        (\<exists>b. fst (backup_state True ev s disk) = Inr b) \<and> (\<exists>b. fst (migrate_state True s t) = Inr b))"
proof -
  have v: "fst (validate_state dry_run s)
     = (\<forall>c\<in>set SONIC_STATE_COMPONENTS. required c \<longrightarrow> fs_exists \<lparr>root = s, fs_dry_run = dry_run\<rparr> (path c))"
    unfolding validate_state_def Let_def fst_conv validate_loop_conj
    by (simp add: registry_defs)
  have bm: "\<forall>b. fst (backup_state dry_run ev s disk) = Inr b \<or> fst (migrate_state dry_run s t) = Inr b \<longrightarrow>
         b = (file_found (Filesystem \<lparr>root = s, fs_dry_run = dry_run\<rparr>) ''/etc/sonic/config_db.json''
              \<and> directory_found (Filesystem \<lparr>root = s, fs_dry_run = dry_run\<rparr>) ''/home''
              \<and> file_found (Filesystem \<lparr>root = s, fs_dry_run = dry_run\<rparr>) ''/etc/fstab''
              \<and> file_found (Filesystem \<lparr>root = s, fs_dry_run = dry_run\<rparr>) ''/etc/shadow'')"
    using backup_state_Inr[of dry_run ev s disk] migrate_state_Inr[of dry_run s t]
    unfolding copy_finds_registry by blast
  have r: "\<forall>b. fst (restore_state dry_run disk t) = Inr b \<longrightarrow>
         b = (file_found (Backup (BackupAdapter_init disk ''r'' dry_run)) ''/etc/sonic/config_db.json''
              \<and> directory_found (Backup (BackupAdapter_init disk ''r'' dry_run)) ''/home''
              \<and> directory_found (Backup (BackupAdapter_init disk ''r'' dry_run)) ''/etc/ssh''
              \<and> file_found (Backup (BackupAdapter_init disk ''r'' dry_run)) ''/etc/fstab'')"
    using restore_state_Inr[of dry_run disk t]
    unfolding restore_finds_registry by blast
  have d1: "\<exists>b. fst (restore_state True disk t) = Inr b"
    by (simp add: restore_state_dry_run)
  have d2: "shadow_decodes (Filesystem \<lparr>root = s, fs_dry_run = True\<rparr>) \<longrightarrow>
        (\<exists>b. fst (backup_state True ev s disk) = Inr b) \<and> (\<exists>b. fst (migrate_state True s t) = Inr b)"
    using backup_state_outcome[of True ev s disk] by (auto simp: migrate_state_dry_run)
  from v bm r d1 d2 show ?thesis by blast
qed

theorem operation_results_witness:
  "fst (migrate_state True root_without_fstab []) = Inr False
   \<and> file_found (Filesystem \<lparr>root = root_without_fstab, fs_dry_run = True\<rparr>) ''/etc/fstab'' = False
   \<and> fst (validate_state True populated_root) = True"
proof -
  have e: "fst (migrate_state True root_without_fstab []) = Inr False"
    "file_found (Filesystem \<lparr>root = root_without_fstab, fs_dry_run = True\<rparr>) ''/etc/fstab'' = False"
    "fst (validate_state True populated_root) = True"
    by code_simp+
  show ?thesis
    using e operation_results[of True root_without_fstab example_env None "[]"]
    by simp
qed

text \<open>
  C2 as it is stated fails: the required component \<open>ssh_infrastructure\<close> is absent from the
  root, and \<open>backup_state\<close> (in a dry run, where it returns) and \<open>migrate_state\<close> return true.
\<close>

theorem missing_required_component_counterexample:
  "ssh_infrastructure \<in> set SONIC_STATE_COMPONENTS
   \<and> required ssh_infrastructure
   \<and> \<not> fs_exists \<lparr>root = root_without_ssh, fs_dry_run = False\<rparr> (path ssh_infrastructure)
   \<and> fst (backup_state True example_env root_without_ssh None) = Inr True
   \<and> fst (migrate_state True root_without_ssh []) = Inr True
   \<and> fst (migrate_state False root_without_ssh []) = Inr True"
  by code_simp

subsection \<open>The credential handler\<close>



subsection \<open>A required file with no content\<close>

lemma not_file_found:
  "(\<not> file_found source p) = (read_file source p = None \<or> read_file source p = Some (Raw []))"
proof (cases "read_file source p")
  case None
  then show ?thesis by (simp add: file_found_def)
next
  case (Some d)
  then show ?thesis by (cases d) (simp_all add: file_found_def)
qed

lemma standard_copy_file_not_found:
  assumes "component_type c = ''file''" "required c" "\<not> file_found source (path c)"
  shows "standard_copy c source dest s = (Inr False, dest)"
  using assms by (auto simp: standard_copy_def file_found_def split: option.splits)

lemma handle_admin_shadow_not_found:
  assumes "\<not> file_found source (path c)"
  shows "handle_admin_shadow c source dest = (Inr False, dest)"
  using assms by (auto simp: handle_admin_shadow_def file_found_def split: option.splits)

lemma copy_component_file_not_found:
  assumes c: "c \<in> set SONIC_STATE_COMPONENTS" and ct: "component_type c = ''file''"
    and rq: "required c" and nf: "\<not> file_found source (path c)"
  shows "copy_component c source dest s = (Inr False, dest)"
proof -
  consider "c = sonic_config" | "c = system_mounts" | "c = admin_auth"
    using c ct rq by (auto simp: registry_defs)
  then show ?thesis
  proof cases
    case 1
    then have "special_handler c = None" by (simp add: sonic_config_def)
    then show ?thesis using standard_copy_file_not_found[OF ct rq nf]
      by (simp add: copy_component_def has_special_handler_def)
  next
    case 2
    then have "special_handler c = None" by (simp add: system_mounts_def)
    then show ?thesis using standard_copy_file_not_found[OF ct rq nf]
      by (simp add: copy_component_def has_special_handler_def)
  next
    case 3
    then have "special_handler c = Some ''admin_shadow''" by (simp add: admin_auth_def)
    then show ?thesis
      using standard_copy_file_not_found[OF ct rq nf] handle_admin_shadow_not_found[OF nf]
      by (simp add: copy_component_def has_special_handler_def handle_special_component_def)
  qed
qed

text \<open>
  C9, as the code has it.  For a required file component of the registry, source data of
  length zero is treated exactly as no data: the loop body of \<open>backup_state\<close> and
  \<open>migrate_state\<close> writes nothing and sets the result to false, and so does the loop body
  of \<open>restore_state\<close> for every such component but the credential component, which
  \<open>restore_state\<close> skips without reading its entry.  Hence \<open>backup_state\<close> and
  \<open>migrate_state\<close> never return true from such a source, and \<open>restore_state\<close> never
  returns true from an archive where \<open>config_db.json\<close> or \<open>fstab\<close> is such an entry.
\<close>

theorem empty_required_file_is_missing:
  assumes "c \<in> set SONIC_STATE_COMPONENTS" "component_type c = ''file''" "required c"
    and "read_file source (path c) = Some (Raw []) \<or> read_file source (path c) = None"
  shows
  "copy_component c source dest s = (Inr False, dest)
   \<and> (special_handler c \<noteq> Some ''admin_shadow'' \<longrightarrow>
        restore_component c source dest s = (Inr False, dest))
   \<and> (source = Filesystem \<lparr>root = t, fs_dry_run = dry_run\<rparr> \<longrightarrow>
        fst (backup_state dry_run ev t disk) \<noteq> Inr True
        \<and> fst (migrate_state dry_run t target) \<noteq> Inr True)
   \<and> (source = Backup (BackupAdapter_init disk ''r'' dry_run)
        \<and> special_handler c \<noteq> Some ''admin_shadow'' \<longrightarrow>
        fst (restore_state dry_run disk target) \<noteq> Inr True)"
proof -
  have nf: "\<not> file_found source (path c)"
    using assms(4) by (auto simp: not_file_found)
  have cc: "copy_component c source dest s = (Inr False, dest)"
    by (rule copy_component_file_not_found[OF assms(1,2,3) nf])
  have rc: "special_handler c \<noteq> Some ''admin_shadow'' \<longrightarrow>
        restore_component c source dest s = (Inr False, dest)"
    using standard_copy_file_not_found[OF assms(2,3) nf]
    by (simp add: restore_component_def)
  have ncf: "\<not> copy_finds source c"
    using assms(1,2,3) nf by (auto simp: copy_finds_def registry_defs)
  have bm: "source = Filesystem \<lparr>root = t, fs_dry_run = dry_run\<rparr> \<longrightarrow>
        fst (backup_state dry_run ev t disk) \<noteq> Inr True
        \<and> fst (migrate_state dry_run t target) \<noteq> Inr True"
    using backup_state_Inr[of dry_run ev t disk True] migrate_state_Inr[of dry_run t target True]
      ncf assms(1)
    by auto
  have nrf: "special_handler c \<noteq> Some ''admin_shadow'' \<longrightarrow> \<not> restore_finds source c"
    using assms(2,3) nf by (simp add: restore_finds_def)
  have rs: "source = Backup (BackupAdapter_init disk ''r'' dry_run)
        \<and> special_handler c \<noteq> Some ''admin_shadow'' \<longrightarrow>
        fst (restore_state dry_run disk target) \<noteq> Inr True"
    using restore_state_Inr[of dry_run disk target True] nrf assms(1)
    by auto
  from cc rc bm rs show ?thesis by blast
qed

theorem empty_required_file_is_missing_witness:
  "copy_component system_mounts
      (Filesystem \<lparr>root = [([''etc''], DirE), ([''etc'', ''fstab''], FileE (Raw []) 420)], fs_dry_run = False\<rparr>)
      (Backup empty_backup) True
     = (Inr False, Backup empty_backup)
   \<and> restore_component system_mounts
      (Backup (empty_backup\<lparr>bk_data := [(''/etc/fstab'', Raw [])]\<rparr>))
      (Filesystem \<lparr>root = [], fs_dry_run = False\<rparr>) True
     = (Inr False, Filesystem \<lparr>root = [], fs_dry_run = False\<rparr>)
   \<and> fst (migrate_state False [([''etc''], DirE), ([''etc'', ''fstab''], FileE (Raw []) 420)] []) \<noteq> Inr True"
proof -
  note ev = system_mounts_def fs_read_file_def full_path_registry tree_exists_def
    bk_read_file_def empty_backup_def SONIC_STATE_COMPONENTS_def
  have m: "system_mounts \<in> set SONIC_STATE_COMPONENTS" "component_type system_mounts = ''file''"
    "required system_mounts" "special_handler system_mounts \<noteq> Some ''admin_shadow''"
    by (simp_all add: ev)
  have ra: "read_file (Filesystem \<lparr>root = [([''etc''], DirE), ([''etc'', ''fstab''], FileE (Raw []) 420)],
                fs_dry_run = False\<rparr>) (path system_mounts) = Some (Raw [])
            \<or> read_file (Filesystem \<lparr>root = [([''etc''], DirE), ([''etc'', ''fstab''], FileE (Raw []) 420)],
                fs_dry_run = False\<rparr>) (path system_mounts) = None"
    by (simp add: ev)
  have rb: "read_file (Backup (empty_backup\<lparr>bk_data := [(''/etc/fstab'', Raw [])]\<rparr>)) (path system_mounts) = Some (Raw [])
            \<or> read_file (Backup (empty_backup\<lparr>bk_data := [(''/etc/fstab'', Raw [])]\<rparr>)) (path system_mounts) = None"
    by (simp add: ev)
  show ?thesis
    using empty_required_file_is_missing[OF m(1,2,3) ra, where dest="Backup empty_backup" and s=True
        and t="[([''etc''], DirE), ([''etc'', ''fstab''], FileE (Raw []) 420)]" and dry_run=False
        and target="[]"]
      empty_required_file_is_missing[OF m(1,2,3) rb,
        where dest="Filesystem \<lparr>root = [], fs_dry_run = False\<rparr>" and s=True]
      m(4)
    by simp
qed

text \<open>
  C9 as it is stated fails for \<open>restore_state\<close> and the credential component: the archive
  holds an entry of length zero at the path of the required file component \<open>admin_auth\<close>,
  and \<open>restore_state\<close> returns true.
\<close>

theorem empty_required_file_counterexample:
  "admin_auth \<in> set SONIC_STATE_COMPONENTS
   \<and> component_type admin_auth = ''file''
   \<and> required admin_auth
   \<and> read_file (Backup (BackupAdapter_init (Some archive_with_empty_shadow) ''r'' False)) (path admin_auth)
       = Some (Raw [])
   \<and> fst (restore_state False (Some archive_with_empty_shadow) []) = Inr True"
  by code_simp

subsection \<open>The SSH bundle handler\<close>

lemma mkdir_one_keeps:
  "mkdir_one p t = Inr t' \<Longrightarrow> map_of t q = Some e \<Longrightarrow> map_of t' q = Some e"
  by (cases "q = p") (auto simp: mkdir_one_def map_of_update_other split: if_splits option.splits entry.splits)

lemma mkdirs_keeps:
  "mkdirs ds t = Inr t' \<Longrightarrow> map_of t q = Some e \<Longrightarrow> map_of t' q = Some e"
proof (induction ds arbitrary: t)
  case Nil
  then show ?case by simp
next
  case (Cons d ds)
  from Cons.prems(1) obtain t1 where t1: "mkdir_one d t = Inr t1" "mkdirs ds t1 = Inr t'"
    by (auto split: sum.splits)
  from mkdir_one_keeps[OF t1(1) Cons.prems(2)] Cons.IH[OF t1(2)] show ?case by simp
qed

lemma write_bytes_keeps:
  "write_bytes p d dflt t = Inr t' \<Longrightarrow> q \<noteq> p \<Longrightarrow> map_of t' q = map_of t q"
  by (auto simp: write_bytes_def map_of_update_other split: if_splits option.splits entry.splits)

lemma chmod_keeps:
  "q \<noteq> p \<Longrightarrow> map_of (chmod p m t) q = map_of t q"
  by (auto simp: chmod_def map_of_update_other split: option.splits entry.splits)

lemma fs_write_file_keeps:
  assumes "fs_write_file f p d m = Inr f'" "map_of (root f) q = Some e" "q \<noteq> full_path p"
  shows "map_of (root f') q = Some e"
proof (cases "fs_dry_run f")
  case True
  then show ?thesis using assms by (simp add: fs_write_file_def)
next
  case False
  with assms(1) obtain t1 t2 where
    t1: "mkdir_parents (butlast (full_path p)) (root f) = Inr t1"
    and t2: "write_bytes (full_path p) d new_file_mode t1 = Inr t2"
    and f': "f' = f\<lparr>root := (case m of None \<Rightarrow> t2 | Some md \<Rightarrow> chmod (full_path p) md t2)\<rparr>"
    by (auto simp: fs_write_file_def split: sum.splits)
  have "map_of t1 q = Some e"
    using mkdirs_keeps[OF t1[unfolded mkdir_parents_def] assms(2)] .
  then have "map_of t2 q = Some e"
    using write_bytes_keeps[OF t2 assms(3)] by simp
  then show ?thesis
    using f' assms(3) by (cases m) (simp_all add: chmod_keeps)
qed

lemma fs_write_file_dry_run:
  "fs_write_file f p d m = Inr f' \<Longrightarrow> fs_dry_run f' = fs_dry_run f"
  by (auto simp: fs_write_file_def split: if_splits sum.splits)

lemma fs_write_directory_dry_run:
  "fs_write_directory f p d = Inr f' \<Longrightarrow> fs_dry_run f' = fs_dry_run f"
  by (auto simp: fs_write_directory_def split: if_splits sum.splits payload.splits)

lemma write_file_Filesystem:
  "write_file (Filesystem f) p d m = Inr d' \<Longrightarrow> \<exists>f'. d' = Filesystem f' \<and> fs_write_file f p d m = Inr f'"
  by (cases "fs_write_file f p d m") auto

lemma write_directory_Filesystem:
  "write_directory (Filesystem f) p d = Inr d' \<Longrightarrow> \<exists>f'. d' = Filesystem f' \<and> fs_write_directory f p d = Inr f'"
  by (cases "fs_write_directory f p d") auto

lemma ssh_suffix_loop_fs:
  assumes "ssh_suffix_loop bp kt sfxs source (Filesystem f) = (Inr (), d')"
    and "distinct (map (\<lambda>x. full_path (bp @ ''/ssh_host_'' @ kt @ ''_key'' @ x)) sfxs)"
  shows "\<exists>f'. d' = Filesystem f' \<and> fs_dry_run f' = fs_dry_run f
      \<and> (\<forall>q e. map_of (root f) q = Some e
            \<longrightarrow> q \<notin> set (map (\<lambda>x. full_path (bp @ ''/ssh_host_'' @ kt @ ''_key'' @ x)) sfxs)
            \<longrightarrow> map_of (root f') q = Some e)
      \<and> (\<not> fs_dry_run f \<longrightarrow>
           (\<forall>x kd. x \<in> set sfxs \<longrightarrow> read_file source (bp @ ''/ssh_host_'' @ kt @ ''_key'' @ x) = Some kd
              \<longrightarrow> truthy kd
              \<longrightarrow> map_of (root f') (full_path (bp @ ''/ssh_host_'' @ kt @ ''_key'' @ x))
                    = Some (FileE kd (if x = [] then mode_0o600 else mode_0o644))))"
  using assms
proof (induction sfxs arbitrary: f)
  case Nil
  then show ?case by auto
next
  case (Cons x xs)
  let ?kp = "\<lambda>y. bp @ ''/ssh_host_'' @ kt @ ''_key'' @ y"
  let ?md = "if x = [] then mode_0o600 else mode_0o644"
  from Cons.prems(2) have dx: "full_path (?kp x) \<notin> set (map (\<lambda>y. full_path (?kp y)) xs)"
    and dxs: "distinct (map (\<lambda>y. full_path (?kp y)) xs)" by simp_all
  show ?case
  proof (cases "file_found source (?kp x)")
    case False
    then have "ssh_suffix_loop bp kt xs source (Filesystem f) = (Inr (), d')"
      using Cons.prems(1) by (auto simp: file_found_def split: option.splits)
    from Cons.IH[OF this dxs] obtain f' where f': "d' = Filesystem f'" "fs_dry_run f' = fs_dry_run f"
      "\<forall>q e. map_of (root f) q = Some e
            \<longrightarrow> q \<notin> set (map (\<lambda>y. full_path (?kp y)) xs) \<longrightarrow> map_of (root f') q = Some e"
      "\<not> fs_dry_run f \<longrightarrow>
           (\<forall>y kd. y \<in> set xs \<longrightarrow> read_file source (?kp y) = Some kd \<longrightarrow> truthy kd
              \<longrightarrow> map_of (root f') (full_path (?kp y))
                    = Some (FileE kd (if y = [] then mode_0o600 else mode_0o644)))"
      by blast
    have nx: "\<And>kd. read_file source (?kp x) = Some kd \<Longrightarrow> \<not> truthy kd"
      using False by (simp add: file_found_def)
    show ?thesis using f' nx by auto
  next
    case True
    then obtain kd where kd: "read_file source (?kp x) = Some kd" "truthy kd"
      by (auto simp: file_found_def split: option.splits)
    from Cons.prems(1) kd obtain d1 where d1: "write_file (Filesystem f) (?kp x) kd (Some ?md) = Inr d1"
      "ssh_suffix_loop bp kt xs source d1 = (Inr (), d')"
      by (auto split: sum.splits)
    from write_file_Filesystem[OF d1(1)] obtain f1 where f1: "d1 = Filesystem f1"
      "fs_write_file f (?kp x) kd (Some ?md) = Inr f1" by blast
    have dry1: "fs_dry_run f1 = fs_dry_run f" by (rule fs_write_file_dry_run[OF f1(2)])
    from Cons.IH[OF d1(2)[unfolded f1(1)] dxs] obtain f' where f': "d' = Filesystem f'"
      "fs_dry_run f' = fs_dry_run f1"
      "\<forall>q e. map_of (root f1) q = Some e
            \<longrightarrow> q \<notin> set (map (\<lambda>y. full_path (?kp y)) xs) \<longrightarrow> map_of (root f') q = Some e"
      "\<not> fs_dry_run f1 \<longrightarrow>
           (\<forall>y kd. y \<in> set xs \<longrightarrow> read_file source (?kp y) = Some kd \<longrightarrow> truthy kd
              \<longrightarrow> map_of (root f') (full_path (?kp y))
                    = Some (FileE kd (if y = [] then mode_0o600 else mode_0o644)))"
      by blast
    have keep: "map_of (root f') q = Some e"
      if "map_of (root f) q = Some e" "q \<notin> set (map (\<lambda>y. full_path (?kp y)) (x # xs))" for q e
    proof -
      from that(2) have "q \<noteq> full_path (?kp x)" "q \<notin> set (map (\<lambda>y. full_path (?kp y)) xs)" by auto
      then show ?thesis using fs_write_file_keeps[OF f1(2) that(1)] f'(3) by blast
    qed
    have written: "map_of (root f') (full_path (?kp y))
                    = Some (FileE k (if y = [] then mode_0o600 else mode_0o644))"
      if "\<not> fs_dry_run f" "y \<in> set (x # xs)" "read_file source (?kp y) = Some k" "truthy k" for y k
    proof (cases "y = x")
      case True
      then have "k = kd" using that(3) kd(1) by simp
      have "map_of (root f1) (full_path (?kp x)) = Some (FileE kd ?md)"
        using fs_write_file_mode[OF that(1) f1(2)] .
      then have "map_of (root f') (full_path (?kp x)) = Some (FileE kd ?md)"
        using f'(3) dx by blast
      then show ?thesis using True \<open>k = kd\<close> by simp
    next
      case False
      then have "y \<in> set xs" using that(2) by simp
      then show ?thesis using f'(4) that(1,3,4) dry1 by blast
    qed
    show ?thesis using f'(1,2) dry1 keep written by blast
  qed
qed

lemma ssh_key_loop_fs:
  assumes "ssh_key_loop bp kts source (Filesystem f) = (Inr (), d')"
    and "distinct (concat (map (\<lambda>k. map (\<lambda>x. full_path (bp @ ''/ssh_host_'' @ k @ ''_key'' @ x))
                                  [[], ''.pub'']) kts))"
  shows "\<exists>f'. d' = Filesystem f' \<and> fs_dry_run f' = fs_dry_run f
      \<and> (\<forall>q e. map_of (root f) q = Some e
            \<longrightarrow> q \<notin> set (concat (map (\<lambda>k. map (\<lambda>x. full_path (bp @ ''/ssh_host_'' @ k @ ''_key'' @ x))
                                  [[], ''.pub'']) kts))
            \<longrightarrow> map_of (root f') q = Some e)
      \<and> (\<not> fs_dry_run f \<longrightarrow>
           (\<forall>k x kd. k \<in> set kts \<longrightarrow> x \<in> set [[], ''.pub'']
              \<longrightarrow> read_file source (bp @ ''/ssh_host_'' @ k @ ''_key'' @ x) = Some kd
              \<longrightarrow> truthy kd
              \<longrightarrow> map_of (root f') (full_path (bp @ ''/ssh_host_'' @ k @ ''_key'' @ x))
                    = Some (FileE kd (if x = [] then mode_0o600 else mode_0o644))))"
  using assms
proof (induction kts arbitrary: f)
  case Nil
  then show ?case by auto
next
  case (Cons k ks)
  let ?fp = "\<lambda>k x. full_path (bp @ ''/ssh_host_'' @ k @ ''_key'' @ x)"
  let ?A = "map (?fp k) [[], ''.pub'']"
  let ?B = "concat (map (\<lambda>k. map (?fp k) [[], ''.pub'']) ks)"
  from Cons.prems(2) have dA: "distinct ?A" and dB: "distinct ?B" and disj: "set ?A \<inter> set ?B = {}"
    by simp_all
  from Cons.prems(1) obtain d1 where d1: "ssh_suffix_loop bp k [[], ''.pub''] source (Filesystem f) = (Inr (), d1)"
    "ssh_key_loop bp ks source d1 = (Inr (), d')"
    by (auto split: prod.splits sum.splits)
  from ssh_suffix_loop_fs[OF d1(1) dA] obtain f1 where f1: "d1 = Filesystem f1"
    "fs_dry_run f1 = fs_dry_run f"
    "\<forall>q e. map_of (root f) q = Some e \<longrightarrow> q \<notin> set ?A \<longrightarrow> map_of (root f1) q = Some e"
    "\<not> fs_dry_run f \<longrightarrow>
           (\<forall>x kd. x \<in> set [[], ''.pub''] \<longrightarrow> read_file source (bp @ ''/ssh_host_'' @ k @ ''_key'' @ x) = Some kd
              \<longrightarrow> truthy kd
              \<longrightarrow> map_of (root f1) (?fp k x) = Some (FileE kd (if x = [] then mode_0o600 else mode_0o644)))"
    by blast
  from Cons.IH[OF d1(2)[unfolded f1(1)] dB] obtain f' where f': "d' = Filesystem f'"
    "fs_dry_run f' = fs_dry_run f1"
    "\<forall>q e. map_of (root f1) q = Some e \<longrightarrow> q \<notin> set ?B \<longrightarrow> map_of (root f') q = Some e"
    "\<not> fs_dry_run f1 \<longrightarrow>
           (\<forall>k x kd. k \<in> set ks \<longrightarrow> x \<in> set [[], ''.pub'']
              \<longrightarrow> read_file source (bp @ ''/ssh_host_'' @ k @ ''_key'' @ x) = Some kd
              \<longrightarrow> truthy kd
              \<longrightarrow> map_of (root f') (?fp k x) = Some (FileE kd (if x = [] then mode_0o600 else mode_0o644)))"
    by blast
  have keep: "map_of (root f') q = Some e"
    if "map_of (root f) q = Some e"
      "q \<notin> set (concat (map (\<lambda>k. map (?fp k) [[], ''.pub'']) (k # ks)))" for q e
  proof -
    from that(2) have "q \<notin> set ?A" "q \<notin> set ?B" by auto
    then show ?thesis using f1(3) f'(3) that(1) by blast
  qed
  have written: "map_of (root f') (?fp k' x) = Some (FileE kd (if x = [] then mode_0o600 else mode_0o644))"
    if "\<not> fs_dry_run f" "k' \<in> set (k # ks)" "x \<in> set [[], ''.pub'']"
      "read_file source (bp @ ''/ssh_host_'' @ k' @ ''_key'' @ x) = Some kd" "truthy kd" for k' x kd
  proof (cases "k' \<in> set ks")
    case True
    then show ?thesis using f'(4) f1(2) that by blast
  next
    case False
    then have "k' = k" using that(2) by simp
    then have at1: "map_of (root f1) (?fp k x) = Some (FileE kd (if x = [] then mode_0o600 else mode_0o644))"
      using f1(4) that by blast
    have "?fp k x \<in> set ?A" using that(3) by auto
    then have "?fp k x \<notin> set ?B" using disj by blast
    then show ?thesis using f'(3) at1 \<open>k' = k\<close> by blast
  qed
  show ?case using f'(1,2) f1(2) keep written by blast
qed

lemma map_sum_FilesystemD:
  "map_sum id Filesystem r = Inr d' \<Longrightarrow> \<exists>f'. r = Inr f' \<and> d' = Filesystem f'"
  by (cases r) auto

lemma ssh_copy_config_fs:
  "ssh_copy_config bp source (Filesystem f) = (Inr u, d') \<Longrightarrow>
     \<exists>f'. d' = Filesystem f' \<and> fs_dry_run f' = fs_dry_run f"
  by (auto simp: ssh_copy_config_def split: option.splits if_splits sum.splits
      dest!: map_sum_FilesystemD fs_write_file_dry_run)

lemma ssh_copy_config_d_fs:
  "ssh_copy_config_d bp source (Filesystem f) = (Inr u, d') \<Longrightarrow>
     \<exists>f'. d' = Filesystem f' \<and> fs_dry_run f' = fs_dry_run f"
  by (auto simp: ssh_copy_config_d_def split: option.splits if_splits sum.splits
      dest!: map_sum_FilesystemD fs_write_directory_dry_run)

lemma ssh_key_paths_distinct:
  "distinct (concat (map (\<lambda>k. map (\<lambda>x. full_path (''/etc/ssh'' @ ''/ssh_host_'' @ k @ ''_key'' @ x))
                                  [[], ''.pub'']) [''rsa'', ''ecdsa'', ''ed25519'']))"
  by (simp add: full_path_def path_parts_def lstrip_slash_def)

lemma handle_ssh_config_modes:
  assumes h: "handle_ssh_config ssh_infrastructure source (Filesystem f) = (Inr True, d')"
    and nd: "\<not> fs_dry_run f"
    and k: "k \<in> set [''rsa'', ''ecdsa'', ''ed25519'']" and x: "x \<in> set [[], ''.pub'']"
    and rd: "read_file source (''/etc/ssh'' @ ''/ssh_host_'' @ k @ ''_key'' @ x) = Some kd" "truthy kd"
  shows "\<exists>f'. d' = Filesystem f' \<and>
           map_of (root f') (full_path (''/etc/ssh'' @ ''/ssh_host_'' @ k @ ''_key'' @ x))
             = Some (FileE kd (if x = [] then mode_0o600 else mode_0o644))"
proof -
  have p: "path ssh_infrastructure = ''/etc/ssh''" by (simp add: ssh_infrastructure_def)
  from h obtain d1 d2 where
    s1: "ssh_copy_config ''/etc/ssh'' source (Filesystem f) = (Inr (), d1)" and
    s2: "ssh_copy_config_d ''/etc/ssh'' source d1 = (Inr (), d2)" and
    s3: "ssh_key_loop ''/etc/ssh'' [''rsa'', ''ecdsa'', ''ed25519''] source d2 = (Inr (), d')"
    unfolding handle_ssh_config_def Let_def p
    by (auto split: prod.splits sum.splits)
  from ssh_copy_config_fs[OF s1] obtain f1 where f1: "d1 = Filesystem f1" "fs_dry_run f1 = fs_dry_run f"
    by blast
  from ssh_copy_config_d_fs[OF s2[unfolded f1(1)]] obtain f2 where f2: "d2 = Filesystem f2"
    "fs_dry_run f2 = fs_dry_run f1" by blast
  have nd2: "\<not> fs_dry_run f2" using f1(2) f2(2) nd by simp
  from ssh_key_loop_fs[OF s3[unfolded f2(1)] ssh_key_paths_distinct] nd2 k x rd
  show ?thesis by blast
qed

text \<open>
  C7, as the code has it.  The SSH bundle handler never reports false: when it returns, it
  returns true, and it always returns on an archive destination and on a dry-run
  filesystem destination.  On a filesystem destination that is not a dry run, when the
  handler returns, every host key whose source file gives data that is not empty stands
  at the destination with that data, the private key with mode \<open>0o600\<close> and the public
  key with mode \<open>0o644\<close>, whatever the modes at the source and whatever stood at the
  destination before.
\<close>

theorem ssh_bundle_handler:
  "(handle_special_component ssh_infrastructure source dest = (Inr h, d') \<longrightarrow> h)
   \<and> (\<exists>d1. handle_special_component ssh_infrastructure source (Backup b) = (Inr True, d1))
   \<and> (fs_dry_run f \<longrightarrow>
        handle_special_component ssh_infrastructure source (Filesystem f) = (Inr True, Filesystem f))
   \<and> (\<not> fs_dry_run f \<and> k \<in> set [''rsa'', ''ecdsa'', ''ed25519'']
        \<and> handle_special_component ssh_infrastructure source (Filesystem f) = (Inr True, Filesystem f')
       \<longrightarrow> (\<forall>kd. read_file source (''/etc/ssh/ssh_host_'' @ k @ ''_key'') = Some kd \<and> truthy kd
               \<longrightarrow> map_of (root f') (full_path (''/etc/ssh/ssh_host_'' @ k @ ''_key''))
                     = Some (FileE kd mode_0o600))
          \<and> (\<forall>kd. read_file source (''/etc/ssh/ssh_host_'' @ k @ ''_key.pub'') = Some kd \<and> truthy kd
               \<longrightarrow> map_of (root f') (full_path (''/etc/ssh/ssh_host_'' @ k @ ''_key.pub''))
                     = Some (FileE kd mode_0o644)))"
proof -
  have hs: "handle_special_component ssh_infrastructure src dst = handle_ssh_config ssh_infrastructure src dst"
    for src dst
    by (simp add: handle_special_component_def ssh_infrastructure_def)
  have a: "handle_special_component ssh_infrastructure source dest = (Inr h, d') \<longrightarrow> h"
    using ssh_handler_Inr[of ssh_infrastructure source dest h d'] by (auto simp: hs)
  have b: "\<exists>d1. handle_special_component ssh_infrastructure source (Backup b) = (Inr True, d1)"
    using handle_ssh_config_ws[OF ws_backup[of "bk_dry_run b"], of "Backup b" ssh_infrastructure source]
    by (auto simp: hs)
  have c: "fs_dry_run f \<longrightarrow>
        handle_special_component ssh_infrastructure source (Filesystem f) = (Inr True, Filesystem f)"
  proof
    assume dr: "fs_dry_run f"
    from handle_ssh_config_ws[OF ws_dry_run[OF dr] refl, of ssh_infrastructure source]
    show "handle_special_component ssh_infrastructure source (Filesystem f) = (Inr True, Filesystem f)"
      by (auto simp: hs)
  qed
  have d: "\<not> fs_dry_run f \<and> k \<in> set [''rsa'', ''ecdsa'', ''ed25519'']
        \<and> handle_special_component ssh_infrastructure source (Filesystem f) = (Inr True, Filesystem f')
       \<longrightarrow> (\<forall>kd. read_file source (''/etc/ssh/ssh_host_'' @ k @ ''_key'') = Some kd \<and> truthy kd
               \<longrightarrow> map_of (root f') (full_path (''/etc/ssh/ssh_host_'' @ k @ ''_key''))
                     = Some (FileE kd mode_0o600))
          \<and> (\<forall>kd. read_file source (''/etc/ssh/ssh_host_'' @ k @ ''_key.pub'') = Some kd \<and> truthy kd
               \<longrightarrow> map_of (root f') (full_path (''/etc/ssh/ssh_host_'' @ k @ ''_key.pub''))
                     = Some (FileE kd mode_0o644))"
  proof (intro impI conjI allI; elim conjE)
    fix kd
    assume nd: "\<not> fs_dry_run f" and k: "k \<in> set [''rsa'', ''ecdsa'', ''ed25519'']"
      and h: "handle_special_component ssh_infrastructure source (Filesystem f) = (Inr True, Filesystem f')"
      and rd: "read_file source (''/etc/ssh/ssh_host_'' @ k @ ''_key'') = Some kd" "truthy kd"
    from handle_ssh_config_modes[OF h[unfolded hs] nd k, of "[]" kd] rd
    show "map_of (root f') (full_path (''/etc/ssh/ssh_host_'' @ k @ ''_key'')) = Some (FileE kd mode_0o600)"
      by simp
  next
    fix kd
    assume nd: "\<not> fs_dry_run f" and k: "k \<in> set [''rsa'', ''ecdsa'', ''ed25519'']"
      and h: "handle_special_component ssh_infrastructure source (Filesystem f) = (Inr True, Filesystem f')"
      and rd: "read_file source (''/etc/ssh/ssh_host_'' @ k @ ''_key.pub'') = Some kd" "truthy kd"
    from handle_ssh_config_modes[OF h[unfolded hs] nd k, of "''.pub''" kd] rd
    show "map_of (root f') (full_path (''/etc/ssh/ssh_host_'' @ k @ ''_key.pub'')) = Some (FileE kd mode_0o644)"
      by simp
  qed
  from a b c d show ?thesis by blast
qed

theorem ssh_bundle_handler_witness:
  "handle_special_component ssh_infrastructure
      (Filesystem \<lparr>root = populated_root, fs_dry_run = False\<rparr>)
      (Filesystem \<lparr>root = target_with_old_key, fs_dry_run = False\<rparr>)
     = (Inr True, Filesystem \<lparr>root =
          [([''etc''], DirE), ([''etc'', ''ssh''], DirE),
           ([''etc'', ''ssh'', ''ssh_host_rsa_key''], FileE (Raw ''PRIVATE'') 384),
           ([''etc'', ''ssh'', ''sshd_config''], FileE (Raw ''Port 22'') 420),
           ([''etc'', ''ssh'', ''ssh_host_rsa_key.pub''], FileE (Raw ''PUBLIC'') 420)],
          fs_dry_run = False\<rparr>)
   \<and> map_of populated_root [''etc'', ''ssh'', ''ssh_host_rsa_key''] = Some (FileE (Raw ''PRIVATE'') 420)
   \<and> map_of [([''etc''], DirE), ([''etc'', ''ssh''], DirE),
           ([''etc'', ''ssh'', ''ssh_host_rsa_key''], FileE (Raw ''PRIVATE'') 384),
           ([''etc'', ''ssh'', ''sshd_config''], FileE (Raw ''Port 22'') 420),
           ([''etc'', ''ssh'', ''ssh_host_rsa_key.pub''], FileE (Raw ''PUBLIC'') 420)]
        (full_path ''/etc/ssh/ssh_host_rsa_key'') = Some (FileE (Raw ''PRIVATE'') mode_0o600)"
proof -
  let ?srcA = "Filesystem \<lparr>root = populated_root, fs_dry_run = False\<rparr>"
  let ?tgt = "\<lparr>root = target_with_old_key, fs_dry_run = False\<rparr>"
  let ?res = "\<lparr>root =
          [([''etc''], DirE), ([''etc'', ''ssh''], DirE),
           ([''etc'', ''ssh'', ''ssh_host_rsa_key''], FileE (Raw ''PRIVATE'') 384),
           ([''etc'', ''ssh'', ''sshd_config''], FileE (Raw ''Port 22'') 420),
           ([''etc'', ''ssh'', ''ssh_host_rsa_key.pub''], FileE (Raw ''PUBLIC'') 420)],
          fs_dry_run = False\<rparr>"
  have e: "handle_special_component ssh_infrastructure ?srcA (Filesystem ?tgt) = (Inr True, Filesystem ?res)"
    "map_of populated_root [''etc'', ''ssh'', ''ssh_host_rsa_key''] = Some (FileE (Raw ''PRIVATE'') 420)"
    "read_file ?srcA (''/etc/ssh/ssh_host_'' @ ''rsa'' @ ''_key'') = Some (Raw ''PRIVATE'')"
    "\<not> fs_dry_run ?tgt"
    by code_simp+
  show ?thesis
    using e ssh_bundle_handler[where source="?srcA" and f="?tgt" and k="''rsa''" and f'="?res"]
    by simp
qed

text \<open>
  C7 as it is stated fails: the private RSA host key is present at the source, with no
  content; the handler reports handled, writes no private key, and the private key at
  the destination is the one that stood there, readable by everyone.
\<close>

theorem ssh_key_mode_counterexample:
  "fs_exists \<lparr>root = root_with_empty_key, fs_dry_run = False\<rparr> ''/etc/ssh/ssh_host_rsa_key''
   \<and> fst (handle_special_component ssh_infrastructure
            (Filesystem \<lparr>root = root_with_empty_key, fs_dry_run = False\<rparr>)
            (Filesystem \<lparr>root = target_with_old_key, fs_dry_run = False\<rparr>)) = Inr True
   \<and> map_of (adapter_root (snd (handle_special_component ssh_infrastructure
            (Filesystem \<lparr>root = root_with_empty_key, fs_dry_run = False\<rparr>)
            (Filesystem \<lparr>root = target_with_old_key, fs_dry_run = False\<rparr>))) [])
         (full_path ''/etc/ssh/ssh_host_rsa_key'')
       = Some (FileE (Raw ''OLD'') mode_0o644)
   \<and> mode_0o644 \<noteq> mode_0o600"
  by code_simp

subsection \<open>What the credential handler writes\<close>









end
